theory Spec2Isabelle
  imports Complex_Main
begin

section \<open>Numbers\<close>

text \<open>
  The calculation engine \<^verbatim>\<open>backend/src/bond/bond-calculation.ts\<close> computes with
  JavaScript numbers, the binary64 format of IEEE 754.  A number is a \<open>jsnumber\<close>:
  \<open>Num x\<close> is the finite number of value \<open>x\<close>, and the values of the format are the reals
  for which \<open>is_double\<close> below holds.  The sign of a zero is not part of the model: both
  zeros are \<open>Num 0\<close> (they are equal under \<^verbatim>\<open>===\<close> and \<^verbatim>\<open>JSON.stringify\<close> prints both as
  \<^verbatim>\<open>0\<close>).  A field of a request may also hold a value whose type is not number.
\<close>

datatype jsnumber =
    Num real          \<comment> \<open>a finite number\<close>
  | NaN
  | PosInfinity
  | NegInfinity
  | NotNumber         \<comment> \<open>a value whose type is not number (undefined, a string, ...)\<close>

fun Number_isFinite :: "jsnumber \<Rightarrow> bool" where
  "Number_isFinite (Num x) = True"
| "Number_isFinite v = False"

text \<open>
  The comparisons \<^verbatim>\<open>v <= 0\<close> and \<^verbatim>\<open>v < 0\<close> of the validator.  In the source each
  stands to the right of \<^verbatim>\<open>!Number.isFinite(v) ||\<close>, so it is evaluated on finite
  numbers only; the other equations give the value JavaScript computes for the
  non-finite numbers and leave a non-number (whose comparison coerces) at \<open>False\<close>.
\<close>

fun le_zero :: "jsnumber \<Rightarrow> bool" where
  "le_zero (Num x) = (x \<le> 0)"
| "le_zero NegInfinity = True"
| "le_zero v = False"

fun lt_zero :: "jsnumber \<Rightarrow> bool" where
  "lt_zero (Num x) = (x < 0)"
| "lt_zero NegInfinity = True"
| "lt_zero v = False"


subsection \<open>Rounding to the format\<close>

text \<open>
  The result of an arithmetic operation is the exact result rounded to the nearest value
  of the format, a tie going to the value whose significand is even.  \<open>pow2 k\<close> is
  \<open>2\<^sup>k\<close>; \<open>exponent x\<close> is the \<open>e\<close> with \<open>2\<^sup>e \<le> |x| < 2\<^sup>e\<^sup>+\<^sup>1\<close>, found by halving
  (\<open>log2_up\<close>) or doubling (\<open>log2_down\<close>); \<open>quantum x\<close> is the distance between the values
  of the format around \<open>x\<close>: a significand has 53 bits, and below \<open>2\<^sup>-\<^sup>1\<^sup>0\<^sup>2\<^sup>2\<close> the
  subnormal numbers are \<open>2\<^sup>-\<^sup>1\<^sup>0\<^sup>7\<^sup>4\<close> apart.  \<open>nearest x\<close> is the multiple of the quantum
  nearest to \<open>x\<close>, and \<open>rnd x\<close> is the number that an operation with exact result \<open>x\<close>
  returns: an infinity when \<open>nearest x\<close> is beyond the largest finite value.  \<open>rnd d\<close> is
  also the number that a decimal literal \<open>d\<close> of a program or of a JSON text denotes.
\<close>

definition pow2 :: "int \<Rightarrow> real" where
  "pow2 k = (if 0 \<le> k then 2 ^ nat k else 1 / 2 ^ nat (- k))"

function log2_up :: "real \<Rightarrow> nat" where
  "log2_up x = (if x < 2 then 0 else Suc (log2_up (x / 2)))"
  by pat_completeness auto
termination
proof (relation "measure (\<lambda>x. nat \<lfloor>x\<rfloor>)")
  show "wf (measure (\<lambda>x::real. nat \<lfloor>x\<rfloor>))" by simp
next
  fix x :: real
  assume "\<not> x < 2"
  then have "\<lfloor>x / 2\<rfloor> \<le> \<lfloor>x - 1\<rfloor>" by (intro floor_mono) simp
  moreover have "1 \<le> \<lfloor>x - 1\<rfloor>" using \<open>\<not> x < 2\<close> by (simp add: le_floor_iff)
  ultimately show "(x / 2, x) \<in> measure (\<lambda>x. nat \<lfloor>x\<rfloor>)" by simp
qed

function log2_down :: "real \<Rightarrow> nat" where
  "log2_down x = (if x \<le> 0 \<or> 1 \<le> x then 0 else Suc (log2_down (x * 2)))"
  by pat_completeness auto
termination
proof (relation "measure (\<lambda>x. nat \<lfloor>1 / x\<rfloor>)")
  show "wf (measure (\<lambda>x::real. nat \<lfloor>1 / x\<rfloor>))" by simp
next
  fix x :: real
  assume a: "\<not> (x \<le> 0 \<or> 1 \<le> x)"
  then have x: "0 < x" "x < 1" by auto
  then have y: "1 < 1 / x" by simp
  have "\<lfloor>(1 / x) / 2\<rfloor> < \<lfloor>1 / x\<rfloor>"
  proof (cases "2 \<le> 1 / x")
    case True
    then have "\<lfloor>(1 / x) / 2\<rfloor> \<le> \<lfloor>1 / x - 1\<rfloor>" by (intro floor_mono) simp
    then show ?thesis by simp
  next
    case False
    then have "1 / x < 2" by simp
    then have "(1 / x) / 2 < 1" by simp
    moreover have "0 \<le> (1 / x) / 2" using x by simp
    ultimately have "\<lfloor>(1 / x) / 2\<rfloor> = 0" by (simp only: floor_eq_iff) simp
    moreover have "1 \<le> \<lfloor>1 / x\<rfloor>" using y by (simp add: le_floor_iff)
    ultimately show ?thesis by simp
  qed
  moreover have "0 < \<lfloor>1 / x\<rfloor>" using y by (simp add: less_floor_iff)
  ultimately show "(x * 2, x) \<in> measure (\<lambda>x. nat \<lfloor>1 / x\<rfloor>)" by simp
qed

declare log2_up.simps [simp del]
declare log2_down.simps [simp del]

definition exponent :: "real \<Rightarrow> int" where
  "exponent x = (if 1 \<le> \<bar>x\<bar> then int (log2_up \<bar>x\<bar>) else - int (log2_down \<bar>x\<bar>))"

definition quantum :: "real \<Rightarrow> real" where
  "quantum x = pow2 (max (exponent x) (- 1022) - 52)"

text \<open>The integer nearest to \<open>y\<close>, the even one of the two when \<open>y\<close> is half-way.\<close>

definition round_even :: "real \<Rightarrow> int" where
  "round_even y =
     (let f = \<lfloor>y\<rfloor>; d = y - of_int f
      in if d < 1 / 2 then f else if 1 / 2 < d then f + 1 else if even f then f else f + 1)"

definition nearest :: "real \<Rightarrow> real" where
  "nearest x = of_int (round_even (x / quantum x)) * quantum x"

definition rnd :: "real \<Rightarrow> jsnumber" where
  "rnd x =
     (let r = nearest x
      in if 2 ^ 1024 \<le> r then PosInfinity
         else if r \<le> - (2 ^ 1024) then NegInfinity
         else Num r)"

definition is_double :: "real \<Rightarrow> bool" where
  "is_double x = (rnd x = Num x)"


subsection \<open>Arithmetic\<close>

text \<open>
  The operations \<^verbatim>\<open>+ - * /\<close> and the comparisons \<^verbatim>\<open><\<close> and \<^verbatim>\<open><=\<close> on numbers
  (\<^verbatim>\<open>a > b\<close> is \<open>js_lt b a\<close>).  An operation on finite numbers rounds its exact
  result; the equations for the infinities are those of IEEE 754, and every other case,
  an operand \<open>NaN\<close> among them, gives \<open>NaN\<close>.  A comparison with \<open>NaN\<close> is false.  A zero
  divisor is taken for \<open>+0\<close>.  The operands are numbers: \<open>NotNumber\<close> never reaches an
  operation in the functions below.
\<close>

fun js_neg :: "jsnumber \<Rightarrow> jsnumber" where
  "js_neg (Num x) = Num (- x)"
| "js_neg PosInfinity = NegInfinity"
| "js_neg NegInfinity = PosInfinity"
| "js_neg v = NaN"

fun js_add :: "jsnumber \<Rightarrow> jsnumber \<Rightarrow> jsnumber" where
  "js_add (Num x) (Num y) = rnd (x + y)"
| "js_add (Num x) PosInfinity = PosInfinity"
| "js_add (Num x) NegInfinity = NegInfinity"
| "js_add PosInfinity (Num y) = PosInfinity"
| "js_add PosInfinity PosInfinity = PosInfinity"
| "js_add NegInfinity (Num y) = NegInfinity"
| "js_add NegInfinity NegInfinity = NegInfinity"
| "js_add v w = NaN"

definition js_sub :: "jsnumber \<Rightarrow> jsnumber \<Rightarrow> jsnumber" where
  "js_sub v w = js_add v (js_neg w)"

fun js_mul :: "jsnumber \<Rightarrow> jsnumber \<Rightarrow> jsnumber" where
  "js_mul (Num x) (Num y) = rnd (x * y)"
| "js_mul (Num x) PosInfinity = (if 0 < x then PosInfinity else if x < 0 then NegInfinity else NaN)"
| "js_mul (Num x) NegInfinity = (if 0 < x then NegInfinity else if x < 0 then PosInfinity else NaN)"
| "js_mul PosInfinity (Num y) = (if 0 < y then PosInfinity else if y < 0 then NegInfinity else NaN)"
| "js_mul NegInfinity (Num y) = (if 0 < y then NegInfinity else if y < 0 then PosInfinity else NaN)"
| "js_mul PosInfinity PosInfinity = PosInfinity"
| "js_mul PosInfinity NegInfinity = NegInfinity"
| "js_mul NegInfinity PosInfinity = NegInfinity"
| "js_mul NegInfinity NegInfinity = PosInfinity"
| "js_mul v w = NaN"

fun js_div :: "jsnumber \<Rightarrow> jsnumber \<Rightarrow> jsnumber" where
  "js_div (Num x) (Num y) =
     (if y \<noteq> 0 then rnd (x / y)
      else if 0 < x then PosInfinity else if x < 0 then NegInfinity else NaN)"
| "js_div (Num x) PosInfinity = Num 0"
| "js_div (Num x) NegInfinity = Num 0"
| "js_div PosInfinity (Num y) = (if 0 \<le> y then PosInfinity else NegInfinity)"
| "js_div NegInfinity (Num y) = (if 0 \<le> y then NegInfinity else PosInfinity)"
| "js_div v w = NaN"

fun js_lt :: "jsnumber \<Rightarrow> jsnumber \<Rightarrow> bool" where
  "js_lt (Num x) (Num y) = (x < y)"
| "js_lt (Num x) PosInfinity = True"
| "js_lt NegInfinity (Num y) = True"
| "js_lt NegInfinity PosInfinity = True"
| "js_lt v w = False"

fun js_le :: "jsnumber \<Rightarrow> jsnumber \<Rightarrow> bool" where
  "js_le (Num x) (Num y) = (x \<le> y)"
| "js_le (Num x) PosInfinity = True"
| "js_le NegInfinity (Num y) = True"
| "js_le NegInfinity PosInfinity = True"
| "js_le PosInfinity PosInfinity = True"
| "js_le NegInfinity NegInfinity = True"
| "js_le v w = False"


subsection \<open>Rounding to decimals\<close>

definition Number_EPSILON :: real where
  "Number_EPSILON = 1 / 2 ^ 52"

text \<open>
  \<^verbatim>\<open>Math.round\<close>: the nearest integer, a tie going to the larger one.  \<open>Math_round\<close>
  gives the integer for a finite argument (it is a value of the format whenever the
  argument is); \<open>js_round\<close> is the function on numbers.
\<close>

definition Math_round :: "real \<Rightarrow> int" where
  "Math_round x = \<lfloor>x + 1 / 2\<rfloor>"

fun js_round :: "jsnumber \<Rightarrow> jsnumber" where
  "js_round (Num x) = Num (of_int (Math_round x))"
| "js_round PosInfinity = PosInfinity"
| "js_round NegInfinity = NegInfinity"
| "js_round v = NaN"

text \<open>
  \<^verbatim>\<open>round2\<close> and \<^verbatim>\<open>round6\<close>: \<^verbatim>\<open>Math.round((value + Number.EPSILON) * 100) / 100\<close>, the
  sum, the product and the quotient each rounded to the format.
\<close>

definition round2 :: "jsnumber \<Rightarrow> jsnumber" where
  "round2 v = js_div (js_round (js_mul (js_add v (Num Number_EPSILON)) (Num 100))) (Num 100)"

definition round6 :: "jsnumber \<Rightarrow> jsnumber" where
  "round6 v =
     js_div (js_round (js_mul (js_add v (Num Number_EPSILON)) (Num 1000000))) (Num 1000000)"


section \<open>The yield solver\<close>

text \<open>
  The solver is modelled in exact real arithmetic: its arguments are the values of the
  numbers it is called with, \<^verbatim>\<open>+ - * /\<close> are the operations of \<^typ>\<open>real\<close>,
  \<^verbatim>\<open>Math.pow(b, t)\<close> with a whole non-negative \<^verbatim>\<open>t\<close> is \<open>b ^ t\<close>, \<^verbatim>\<open>Math.abs\<close> and
  \<^verbatim>\<open>Math.max\<close> are \<open>abs\<close> and \<open>max\<close>, and the literals \<^verbatim>\<open>1e-10\<close>, \<^verbatim>\<open>-0.99\<close>, ... are
  the decimals they are written as.  The rounding error of the solver's own operations,
  overflow and underflow are outside this model of the solver.

  \<^verbatim>\<open>priceFromPeriodicYield\<close>: the loop \<^verbatim>\<open>for (t = 1; t <= periods; t += 1) pv += ...\<close>
  is \<open>price_loop\<close>, with the loop variable and the accumulator as arguments.  The period
  count is a whole number (\<^verbatim>\<open>Math.round\<close> produced it).  Division by a zero power
  (\<open>periodicYield = -1\<close>) would give an infinity in the source and gives \<open>0\<close> here;
  \<open>solver_reachable_inv\<close> below shows that the solver stays away from it.
\<close>

function price_loop :: "real \<Rightarrow> real \<Rightarrow> int \<Rightarrow> int \<Rightarrow> real \<Rightarrow> real" where
  "price_loop periodicYield couponPayment periods t pv =
     (if t \<le> periods
      then price_loop periodicYield couponPayment periods (t + 1)
             (pv + couponPayment / (1 + periodicYield) ^ nat t)
      else pv)"
  by pat_completeness auto
termination
  by (relation "measure (\<lambda>(r, c, n, t, pv). nat (n + 1 - t))") auto

definition priceFromPeriodicYield :: "real \<Rightarrow> real \<Rightarrow> real \<Rightarrow> int \<Rightarrow> real" where
  "priceFromPeriodicYield periodicYield couponPayment faceValue periods =
     (if \<bar>periodicYield\<bar> < 1 / 10 ^ 12 then couponPayment * of_int periods + faceValue
      else price_loop periodicYield couponPayment periods 1 0
             + faceValue / (1 + periodicYield) ^ nat periods)"

function derivative_loop :: "real \<Rightarrow> real \<Rightarrow> int \<Rightarrow> int \<Rightarrow> real \<Rightarrow> real" where
  "derivative_loop periodicYield couponPayment periods t derivative =
     (if t \<le> periods
      then derivative_loop periodicYield couponPayment periods (t + 1)
             (derivative + (- of_int t * couponPayment) / (1 + periodicYield) ^ nat (t + 1))
      else derivative)"
  by pat_completeness auto
termination
  by (relation "measure (\<lambda>(r, c, n, t, d). nat (n + 1 - t))") auto

definition derivativePriceFromPeriodicYield :: "real \<Rightarrow> real \<Rightarrow> real \<Rightarrow> int \<Rightarrow> real" where
  "derivativePriceFromPeriodicYield periodicYield couponPayment faceValue periods =
     derivative_loop periodicYield couponPayment periods 1 0
       + (- of_int periods * faceValue) / (1 + periodicYield) ^ nat (periods + 1)"

text \<open>
  The Newton phase, \<^verbatim>\<open>for (i = 0; i < 50; i += 1)\<close>.  The loop either returns from
  \<^verbatim>\<open>solvePeriodicYtm\<close> (\<open>Converged\<close>) or is left, by \<^verbatim>\<open>break\<close> or after its last
  round, for the bisection (\<open>Fallback\<close>).  \<^verbatim>\<open>Number.isFinite\<close> of a computed number
  is \<open>True\<close> in exact arithmetic, so the two tests \<^verbatim>\<open>!Number.isFinite(...)\<close> never
  fire in the model; the tests that remain are those of the source, in its order.
\<close>

datatype newton_exit = Converged real | Fallback

function newton_loop ::
  "real \<Rightarrow> real \<Rightarrow> real \<Rightarrow> int \<Rightarrow> nat \<Rightarrow> real \<Rightarrow> newton_exit" where
  "newton_loop marketPrice couponPayment faceValue periods i x =
     (if i < 50 then
        (let fx = priceFromPeriodicYield x couponPayment faceValue periods - marketPrice in
         if \<bar>fx\<bar> < 1 / 10 ^ 10 then Converged x
         else
           (let dfx = derivativePriceFromPeriodicYield x couponPayment faceValue periods in
            if \<bar>dfx\<bar> < 1 / 10 ^ 12 then Fallback
            else
              (let next = x - fx / dfx in
               if next \<le> - 999999 / 1000000 \<or> next > 10 then Fallback
               else if \<bar>next - x\<bar> < 1 / 10 ^ 12 then Converged next
               else newton_loop marketPrice couponPayment faceValue periods (i + 1) next)))
      else Fallback)"
  by pat_completeness auto
termination
  by (relation "measure (\<lambda>(p, c, f, n, i, x). 50 - i)") auto

text \<open>
  The bracket search \<^verbatim>\<open>while (fLow * fHigh > 0 && expandCount < 20)\<close>; it changes
  \<^verbatim>\<open>high\<close>, \<^verbatim>\<open>fHigh\<close> and \<^verbatim>\<open>expandCount\<close> and returns the first two.
\<close>

function expand_loop ::
  "real \<Rightarrow> real \<Rightarrow> real \<Rightarrow> int \<Rightarrow> real \<Rightarrow> real \<Rightarrow> real \<Rightarrow> nat \<Rightarrow> real \<times> real" where
  "expand_loop marketPrice couponPayment faceValue periods fLow high fHigh expandCount =
     (if fLow * fHigh > 0 \<and> expandCount < 20 then
        (let high' = high * 2;
             fHigh' = priceFromPeriodicYield high' couponPayment faceValue periods - marketPrice
         in expand_loop marketPrice couponPayment faceValue periods fLow high' fHigh'
              (expandCount + 1))
      else (high, fHigh))"
  by pat_completeness auto
termination
  by (relation "measure (\<lambda>(p, c, f, n, fl, h, fh, k). 20 - k)") auto

text \<open>
  The bisection \<^verbatim>\<open>for (i = 0; i < 200; i += 1)\<close>, with the \<^verbatim>\<open>return (low + high) / 2\<close>
  that follows it as the exit of the recursion.
\<close>

function bisect_loop ::
  "real \<Rightarrow> real \<Rightarrow> real \<Rightarrow> int \<Rightarrow> nat \<Rightarrow> real \<Rightarrow> real \<Rightarrow> real \<Rightarrow> real" where
  "bisect_loop marketPrice couponPayment faceValue periods i low high fLow =
     (if i < 200 then
        (let mid = (low + high) / 2;
             fMid = priceFromPeriodicYield mid couponPayment faceValue periods - marketPrice
         in if \<bar>fMid\<bar> < 1 / 10 ^ 10 then mid
            else if fLow * fMid \<le> 0
              then bisect_loop marketPrice couponPayment faceValue periods (i + 1) low mid fLow
              else bisect_loop marketPrice couponPayment faceValue periods (i + 1) mid high fMid)
      else (low + high) / 2)"
  by pat_completeness auto
termination
  by (relation "measure (\<lambda>(p, c, f, n, i, lo, hi, fl). 200 - i)") auto

definition bisection :: "real \<Rightarrow> real \<Rightarrow> real \<Rightarrow> int \<Rightarrow> real" where
  "bisection marketPrice couponPayment faceValue periods =
     (let low = - 99 / 100;
          high = 1;
          fLow = priceFromPeriodicYield low couponPayment faceValue periods - marketPrice;
          fHigh = priceFromPeriodicYield high couponPayment faceValue periods - marketPrice;
          (high', fHigh') =
             expand_loop marketPrice couponPayment faceValue periods fLow high fHigh 0
      in bisect_loop marketPrice couponPayment faceValue periods 0 low high' fLow)"

definition solvePeriodicYtm ::
  "real \<Rightarrow> real \<Rightarrow> real \<Rightarrow> int \<Rightarrow> real \<Rightarrow> real \<Rightarrow> real" where
  "solvePeriodicYtm marketPrice couponPayment faceValue periods frequencyPerYear
       couponRateDecimal =
     (case newton_loop marketPrice couponPayment faceValue periods 0
             (max (- 95 / 100) (couponRateDecimal / frequencyPerYear)) of
        Converged r \<Rightarrow> r
      | Fallback \<Rightarrow> bisection marketPrice couponPayment faceValue periods)"


declare price_loop.simps [simp del]
declare derivative_loop.simps [simp del]
declare newton_loop.simps [simp del]
declare expand_loop.simps [simp del]
declare bisect_loop.simps [simp del]


section \<open>The solver as a machine\<close>

text \<open>
  The same function once more, as the transitions of a machine whose state is the set of
  local variables that are live at the head of each of the three loops of
  \<^verbatim>\<open>solvePeriodicYtm\<close>: \<open>Newton i x\<close>, \<open>Expand fLow high fHigh expandCount\<close> (where
  \<^verbatim>\<open>low\<close> is still \<open>-0.99\<close>) and \<open>Bisect i low high fLow\<close>; \<open>Returned r\<close> is the state
  after a \<^verbatim>\<open>return\<close>.  Every rule is one path through one round of a loop.  Nothing but
  the arguments and these variables is read.
\<close>

datatype solver_state =
    Newton nat real
  | Expand real real real nat
  | Bisect nat real real real
  | Returned real

inductive solver_step ::
  "real \<Rightarrow> real \<Rightarrow> real \<Rightarrow> int \<Rightarrow> solver_state \<Rightarrow> solver_state \<Rightarrow> bool"
  for marketPrice couponPayment faceValue periods where
  newton_residual:
    "i < 50 \<Longrightarrow>
     \<bar>priceFromPeriodicYield x couponPayment faceValue periods - marketPrice\<bar> < 1 / 10 ^ 10 \<Longrightarrow>
     solver_step marketPrice couponPayment faceValue periods (Newton i x) (Returned x)"
| newton_flat:
    "i < 50 \<Longrightarrow>
     \<not> \<bar>priceFromPeriodicYield x couponPayment faceValue periods - marketPrice\<bar> < 1 / 10 ^ 10 \<Longrightarrow>
     \<bar>derivativePriceFromPeriodicYield x couponPayment faceValue periods\<bar> < 1 / 10 ^ 12 \<Longrightarrow>
     solver_step marketPrice couponPayment faceValue periods (Newton i x)
       (Expand (priceFromPeriodicYield (- 99 / 100) couponPayment faceValue periods - marketPrice) 1
          (priceFromPeriodicYield 1 couponPayment faceValue periods - marketPrice) 0)"
| newton_out_of_bounds:
    "i < 50 \<Longrightarrow>
     \<not> \<bar>priceFromPeriodicYield x couponPayment faceValue periods - marketPrice\<bar> < 1 / 10 ^ 10 \<Longrightarrow>
     \<not> \<bar>derivativePriceFromPeriodicYield x couponPayment faceValue periods\<bar> < 1 / 10 ^ 12 \<Longrightarrow>
     next = x - (priceFromPeriodicYield x couponPayment faceValue periods - marketPrice)
                / derivativePriceFromPeriodicYield x couponPayment faceValue periods \<Longrightarrow>
     next \<le> - 999999 / 1000000 \<or> next > 10 \<Longrightarrow>
     solver_step marketPrice couponPayment faceValue periods (Newton i x)
       (Expand (priceFromPeriodicYield (- 99 / 100) couponPayment faceValue periods - marketPrice) 1
          (priceFromPeriodicYield 1 couponPayment faceValue periods - marketPrice) 0)"
| newton_small_step:
    "i < 50 \<Longrightarrow>
     \<not> \<bar>priceFromPeriodicYield x couponPayment faceValue periods - marketPrice\<bar> < 1 / 10 ^ 10 \<Longrightarrow>
     \<not> \<bar>derivativePriceFromPeriodicYield x couponPayment faceValue periods\<bar> < 1 / 10 ^ 12 \<Longrightarrow>
     next = x - (priceFromPeriodicYield x couponPayment faceValue periods - marketPrice)
                / derivativePriceFromPeriodicYield x couponPayment faceValue periods \<Longrightarrow>
     \<not> (next \<le> - 999999 / 1000000 \<or> next > 10) \<Longrightarrow>
     \<bar>next - x\<bar> < 1 / 10 ^ 12 \<Longrightarrow>
     solver_step marketPrice couponPayment faceValue periods (Newton i x) (Returned next)"
| newton_continue:
    "i < 50 \<Longrightarrow>
     \<not> \<bar>priceFromPeriodicYield x couponPayment faceValue periods - marketPrice\<bar> < 1 / 10 ^ 10 \<Longrightarrow>
     \<not> \<bar>derivativePriceFromPeriodicYield x couponPayment faceValue periods\<bar> < 1 / 10 ^ 12 \<Longrightarrow>
     next = x - (priceFromPeriodicYield x couponPayment faceValue periods - marketPrice)
                / derivativePriceFromPeriodicYield x couponPayment faceValue periods \<Longrightarrow>
     \<not> (next \<le> - 999999 / 1000000 \<or> next > 10) \<Longrightarrow>
     \<not> \<bar>next - x\<bar> < 1 / 10 ^ 12 \<Longrightarrow>
     solver_step marketPrice couponPayment faceValue periods (Newton i x) (Newton (i + 1) next)"
| newton_exhausted:
    "\<not> i < 50 \<Longrightarrow>
     solver_step marketPrice couponPayment faceValue periods (Newton i x)
       (Expand (priceFromPeriodicYield (- 99 / 100) couponPayment faceValue periods - marketPrice) 1
          (priceFromPeriodicYield 1 couponPayment faceValue periods - marketPrice) 0)"
| expand_double:
    "fLow * fHigh > 0 \<and> expandCount < 20 \<Longrightarrow>
     solver_step marketPrice couponPayment faceValue periods (Expand fLow high fHigh expandCount)
       (Expand fLow (high * 2)
          (priceFromPeriodicYield (high * 2) couponPayment faceValue periods - marketPrice)
          (expandCount + 1))"
| expand_done:
    "\<not> (fLow * fHigh > 0 \<and> expandCount < 20) \<Longrightarrow>
     solver_step marketPrice couponPayment faceValue periods (Expand fLow high fHigh expandCount)
       (Bisect 0 (- 99 / 100) high fLow)"
| bisect_residual:
    "i < 200 \<Longrightarrow>
     \<bar>priceFromPeriodicYield ((low + high) / 2) couponPayment faceValue periods - marketPrice\<bar>
       < 1 / 10 ^ 10 \<Longrightarrow>
     solver_step marketPrice couponPayment faceValue periods (Bisect i low high fLow)
       (Returned ((low + high) / 2))"
| bisect_lower_half:
    "i < 200 \<Longrightarrow>
     fMid = priceFromPeriodicYield ((low + high) / 2) couponPayment faceValue periods
              - marketPrice \<Longrightarrow>
     \<not> \<bar>fMid\<bar> < 1 / 10 ^ 10 \<Longrightarrow>
     fLow * fMid \<le> 0 \<Longrightarrow>
     solver_step marketPrice couponPayment faceValue periods (Bisect i low high fLow)
       (Bisect (i + 1) low ((low + high) / 2) fLow)"
| bisect_upper_half:
    "i < 200 \<Longrightarrow>
     fMid = priceFromPeriodicYield ((low + high) / 2) couponPayment faceValue periods
              - marketPrice \<Longrightarrow>
     \<not> \<bar>fMid\<bar> < 1 / 10 ^ 10 \<Longrightarrow>
     \<not> fLow * fMid \<le> 0 \<Longrightarrow>
     solver_step marketPrice couponPayment faceValue periods (Bisect i low high fLow)
       (Bisect (i + 1) ((low + high) / 2) high fMid)"
| bisect_exhausted:
    "\<not> i < 200 \<Longrightarrow>
     solver_step marketPrice couponPayment faceValue periods (Bisect i low high fLow)
       (Returned ((low + high) / 2))"

text \<open>
  A call of the solver runs the machine from the first round of the Newton loop, at the
  initial guess \<^verbatim>\<open>Math.max(-0.95, couponRateDecimal / frequencyPerYear)\<close>, until it returns.
\<close>

definition solver_returns ::
  "real \<Rightarrow> real \<Rightarrow> real \<Rightarrow> int \<Rightarrow> real \<Rightarrow> real \<Rightarrow> real \<Rightarrow> bool" where
  "solver_returns marketPrice couponPayment faceValue periods frequencyPerYear couponRateDecimal r =
     (solver_step marketPrice couponPayment faceValue periods)\<^sup>*\<^sup>*
        (Newton 0 (max (- 95 / 100) (couponRateDecimal / frequencyPerYear))) (Returned r)"




section \<open>Dates\<close>

text \<open>
  A \<^verbatim>\<open>Date\<close> object holds a time value: whole milliseconds since 1970-01-01T00:00Z,
  or \<^verbatim>\<open>NaN\<close> (an invalid date), which is \<open>None\<close> here.  The source reads and writes
  dates through the local-time methods \<^verbatim>\<open>getDate\<close>, \<^verbatim>\<open>setDate\<close>, \<^verbatim>\<open>getMonth\<close>,
  \<^verbatim>\<open>setMonth\<close>, \<^verbatim>\<open>getFullYear\<close> and prints them with \<^verbatim>\<open>toISOString\<close>, which is UTC;
  the model takes the process's time zone to be UTC.  The whole numbers these methods
  exchange are \<open>int option\<close>, with \<open>None\<close> for \<^verbatim>\<open>NaN\<close>.
\<close>

type_synonym Date = "int option"

definition msPerDay :: int where
  "msPerDay = 86400000"

text \<open>Day number (days since the epoch) of the civil date y-m-d, months counted from 0.\<close>

definition days_from_civil :: "int \<Rightarrow> int \<Rightarrow> int \<Rightarrow> int" where
  "days_from_civil y m d =
     (let y' = (if m \<le> 1 then y - 1 else y);
          era = y' div 400;
          yoe = y' - era * 400;
          mp = (if m \<le> 1 then m + 10 else m - 2);
          doy = (153 * mp + 2) div 5 + d - 1;
          doe = yoe * 365 + yoe div 4 - yoe div 100 + doy
      in era * 146097 + doe - 719468)"

text \<open>The civil date (year, month from 0, day of month) of a day number.\<close>

definition civil_from_days :: "int \<Rightarrow> int \<times> int \<times> int" where
  "civil_from_days z =
     (let z' = z + 719468;
          era = z' div 146097;
          doe = z' - era * 146097;
          yoe = (doe - doe div 1460 + doe div 36524 - doe div 146096) div 365;
          doy = doe - (365 * yoe + yoe div 4 - yoe div 100);
          mp = (5 * doy + 2) div 153;
          d = doy - (153 * mp + 2) div 5 + 1;
          m = (if mp < 10 then mp + 2 else mp - 10)
      in (yoe + era * 400 + (if m \<le> 1 then 1 else 0), m, d))"

definition MakeDay :: "int \<Rightarrow> int \<Rightarrow> int \<Rightarrow> int" where
  "MakeDay year month date =
     days_from_civil (year + month div 12) (month mod 12) 1 + date - 1"

definition TimeClip :: "int \<Rightarrow> Date" where
  "TimeClip t = (if \<bar>t\<bar> > 8640000000000000 then None else Some t)"

definition getFullYear :: "Date \<Rightarrow> int option" where
  "getFullYear d = map_option (\<lambda>t. fst (civil_from_days (t div msPerDay))) d"

definition getMonth :: "Date \<Rightarrow> int option" where
  "getMonth d = map_option (\<lambda>t. fst (snd (civil_from_days (t div msPerDay)))) d"

definition getDate :: "Date \<Rightarrow> int option" where
  "getDate d = map_option (\<lambda>t. snd (snd (civil_from_days (t div msPerDay)))) d"

definition setDate :: "Date \<Rightarrow> int option \<Rightarrow> Date" where
  "setDate d date =
     (case (d, date) of
        (Some t, Some dt) \<Rightarrow>
          (let (y, m, _) = civil_from_days (t div msPerDay)
           in TimeClip (MakeDay y m dt * msPerDay + t mod msPerDay))
      | _ \<Rightarrow> None)"

definition setMonth :: "Date \<Rightarrow> int option \<Rightarrow> Date" where
  "setMonth d month =
     (case (d, month) of
        (Some t, Some mo) \<Rightarrow>
          (let (y, _, dt) = civil_from_days (t div msPerDay)
           in TimeClip (MakeDay y mo dt * msPerDay + t mod msPerDay))
      | _ \<Rightarrow> None)"

text \<open>
  \<^verbatim>\<open>new Date(year, month, date)\<close>: midnight of that day; a year from 0 to 99 stands
  for 1900 + year.
\<close>

definition new_Date :: "int option \<Rightarrow> int option \<Rightarrow> int option \<Rightarrow> Date" where
  "new_Date year month date =
     (case (year, month, date) of
        (Some y, Some m, Some dt) \<Rightarrow>
          TimeClip (MakeDay (if 0 \<le> y \<and> y \<le> 99 then 1900 + y else y) m dt * msPerDay)
      | _ \<Rightarrow> None)"

definition plus_number :: "int option \<Rightarrow> int \<Rightarrow> int option" where
  "plus_number a b = map_option (\<lambda>x. x + b) a"

definition Math_min :: "int option \<Rightarrow> int option \<Rightarrow> int option" where
  "Math_min a b = (case (a, b) of (Some x, Some y) \<Rightarrow> Some (min x y) | _ \<Rightarrow> None)"

definition addMonthsClamped :: "Date \<Rightarrow> int \<Rightarrow> Date" where
  "addMonthsClamped date months =
     (let d = date;
          day = getDate d;
          d = setDate d (Some 1);
          d = setMonth d (plus_number (getMonth d) months);
          lastDay = getDate (new_Date (getFullYear d) (plus_number (getMonth d) 1) (Some 0));
          d = setDate d (Math_min day lastDay)
      in d)"

text \<open>
  \<^verbatim>\<open>date.toISOString().slice(0, 10)\<close>.  \<^verbatim>\<open>toISOString\<close> throws a \<^verbatim>\<open>RangeError\<close> on an
  invalid date (\<open>None\<close>); it prints a year from 0 to 9999 with four digits and any
  other year with a sign and six digits, so that the first ten characters then end
  with the month.
\<close>

fun digits :: "nat \<Rightarrow> nat \<Rightarrow> string" where
  "digits 0 n = []"
| "digits (Suc w) n = digits w (n div 10) @ [''0123456789'' ! (n mod 10)]"

definition toISODate :: "Date \<Rightarrow> string option" where
  "toISODate d =
     (case d of
        None \<Rightarrow> None
      | Some t \<Rightarrow>
          (let (y, m, dt) = civil_from_days (t div msPerDay)
           in Some (if 0 \<le> y \<and> y \<le> 9999
                    then digits 4 (nat y) @ ''-'' @ digits 2 (nat (m + 1)) @ ''-'' @ digits 2 (nat dt)
                    else (if y < 0 then ''-'' else ''+'') @ digits 6 (nat \<bar>y\<bar>) @ ''-''
                         @ digits 2 (nat (m + 1)))))"

text \<open>
  What the engine takes from its platform: the clock behind \<^verbatim>\<open>new Date()\<close> and the
  parser behind \<^verbatim>\<open>new Date(string)\<close>, whose accepted formats differ between
  JavaScript engines.
\<close>

record Platform =
  now :: Date
  parse :: "string \<Rightarrow> Date"


section \<open>Requests and results\<close>

text \<open>
  \<^verbatim>\<open>BondCalculationInput\<close>.  The coupon frequency is the string the request carries,
  which need not be one of the two the type allows; an absent \<^verbatim>\<open>settlementDate\<close> is
  \<open>None\<close>.
\<close>

record BondCalculationInput =
  faceValue :: jsnumber
  annualCouponRatePct :: jsnumber
  marketPrice :: jsnumber
  yearsToMaturity :: jsnumber
  couponFrequency :: string
  settlementDate :: "string option"

text \<open>
  \<^verbatim>\<open>CashFlowRow\<close>; its \<^verbatim>\<open>couponPayment\<close> is \<open>rowCouponPayment\<close> here, the plain name
  being a field of the result.
\<close>

record CashFlowRow =
  period :: int
  paymentDate :: string
  rowCouponPayment :: jsnumber
  cumulativeInterest :: jsnumber
  remainingPrincipal :: jsnumber

record BondCalculationResult =
  inputs :: BondCalculationInput
  annualCouponAmount :: jsnumber
  couponPayment :: jsnumber
  totalPeriods :: int
  currentYieldPct :: jsnumber
  ytmPct :: jsnumber
  totalInterestEarned :: jsnumber
  tradingStatus :: string
  premiumDiscountAmount :: jsnumber
  cashFlowSchedule :: "CashFlowRow list"

text \<open>
  The properties of the object that \<^verbatim>\<open>calculateBondMetrics\<close> returns, by name, in the
  order of the object literal; \<open>VNumber\<close> carries the value of a numeric property.
\<close>

datatype property_value = VNumber jsnumber | VString string | VObject | VArray nat

definition properties :: "BondCalculationResult \<Rightarrow> (string \<times> property_value) list" where
  "properties r =
     [(''inputs'', VObject),
      (''annualCouponAmount'', VNumber (annualCouponAmount r)),
      (''couponPayment'', VNumber (couponPayment r)),
      (''totalPeriods'', VNumber (Num (of_int (totalPeriods r)))),
      (''currentYieldPct'', VNumber (currentYieldPct r)),
      (''ytmPct'', VNumber (ytmPct r)),
      (''totalInterestEarned'', VNumber (totalInterestEarned r)),
      (''tradingStatus'', VString (tradingStatus r)),
      (''premiumDiscountAmount'', VNumber (premiumDiscountAmount r)),
      (''cashFlowSchedule'', VArray (length (cashFlowSchedule r)))]"


section \<open>The validator\<close>

text \<open>
  A string is truthy when it is not empty: \<^verbatim>\<open>input.settlementDate && ...\<close> and
  \<^verbatim>\<open>input.settlementDate ? ... : ...\<close> treat the empty string as they treat an absent
  date.
\<close>

fun truthy :: "string option \<Rightarrow> bool" where
  "truthy None = False"
| "truthy (Some s) = (s \<noteq> [])"

definition validateBondInput :: "Platform \<Rightarrow> BondCalculationInput \<Rightarrow> string list" where
  "validateBondInput platform input =
     (if \<not> Number_isFinite (faceValue input) \<or> le_zero (faceValue input)
      then [''Face value must be positive.''] else [])
   @ (if \<not> Number_isFinite (annualCouponRatePct input) \<or> lt_zero (annualCouponRatePct input)
      then [''Annual coupon rate must be zero or greater.''] else [])
   @ (if \<not> Number_isFinite (marketPrice input) \<or> le_zero (marketPrice input)
      then [''Market price must be positive.''] else [])
   @ (if \<not> Number_isFinite (yearsToMaturity input) \<or> le_zero (yearsToMaturity input)
      then [''Years to maturity must be positive.''] else [])
   @ (if couponFrequency input \<notin> set [''annual'', ''semi-annual'']
      then [''Coupon frequency must be annual or semi-annual.''] else [])
   @ (if truthy (settlementDate input) \<and> parse platform (the (settlementDate input)) = None
      then [''Settlement date is invalid.''] else [])"


section \<open>Metrics and schedule\<close>

datatype error =
    Error string      \<comment> \<open>\<^verbatim>\<open>throw new Error(message)\<close>\<close>
  | RangeError        \<comment> \<open>thrown by \<^verbatim>\<open>Array.from\<close> and by \<^verbatim>\<open>toISOString\<close>\<close>
  | NonFiniteInput    \<comment> \<open>a number that is not finite where the model needs one: not modelled\<close>

text \<open>
  The callback of \<^verbatim>\<open>Array.from({ length: totalPeriods }, (_, index) => ...)\<close>, called
  for \<open>index = 0, 1, ...\<close> in order; the variable \<^verbatim>\<open>cumulativeInterest\<close> it closes
  over is the argument \<open>cumulative\<close>; \<open>coupon\<close>, \<open>face\<close> and \<open>periods\<close> are the
  enclosing function's \<^verbatim>\<open>couponPayment\<close>, \<^verbatim>\<open>input.faceValue\<close> and \<^verbatim>\<open>totalPeriods\<close>.
  A \<^verbatim>\<open>RangeError\<close> from \<^verbatim>\<open>toISOString\<close> ends the whole calculation.
\<close>

function schedule_loop ::
  "Date \<Rightarrow> int \<Rightarrow> jsnumber \<Rightarrow> jsnumber \<Rightarrow> int \<Rightarrow> int \<Rightarrow> jsnumber
     \<Rightarrow> error + CashFlowRow list" where
  "schedule_loop settlement monthsPerPeriod coupon face periods index cumulative =
     (if index < periods then
        (let period = index + 1;
             cumulative' = js_add cumulative coupon;
             paymentDate = addMonthsClamped settlement (monthsPerPeriod * period)
         in case toISODate paymentDate of
              None \<Rightarrow> Inl RangeError
            | Some isoDate \<Rightarrow>
                (case schedule_loop settlement monthsPerPeriod coupon face periods (index + 1)
                        cumulative' of
                   Inl e \<Rightarrow> Inl e
                 | Inr rows \<Rightarrow>
                     Inr (\<lparr>period = period,
                           paymentDate = isoDate,
                           rowCouponPayment = round2 coupon,
                           cumulativeInterest = round2 cumulative',
                           remainingPrincipal =
                             (if period = periods then Num 0 else round2 face)\<rparr>
                          # rows)))
      else Inr [])"
  by pat_completeness auto
termination
  by (relation "measure (\<lambda>(s, m, c, f, n, i, cum). nat (n - i))") auto

declare schedule_loop.simps [simp del]

text \<open>
  The value of the variable \<^verbatim>\<open>cumulativeInterest\<close> after \<open>n\<close> more calls of the callback:
  \<open>n\<close> times \<^verbatim>\<open>cumulativeInterest += couponPayment\<close>.
\<close>

fun interest_after :: "jsnumber \<Rightarrow> jsnumber \<Rightarrow> nat \<Rightarrow> jsnumber" where
  "interest_after cumulative coupon 0 = cumulative"
| "interest_after cumulative coupon (Suc n) = js_add (interest_after cumulative coupon n) coupon"

text \<open>
  \<^verbatim>\<open>calculateBondMetrics\<close>; \<open>frequencyPerYearOf\<close> is its first line,
  \<^verbatim>\<open>input.couponFrequency === 'annual' ? 1 : 2\<close>, and \<open>couponPaymentOf\<close> the value of its
  constant \<^verbatim>\<open>couponPayment\<close>, \<^verbatim>\<open>input.faceValue * (input.annualCouponRatePct / 100) /
  frequencyPerYear\<close>.

  The four numeric fields are read as finite numbers; on any other value the source goes
  on computing with \<^verbatim>\<open>NaN\<close> or an infinity, and the outcome here is \<open>NonFiniteInput\<close>.
  The product \<^verbatim>\<open>yearsToMaturity * frequencyPerYear\<close>, by 1 or by 2, is exact (but for
  an overflow, above \<open>2\<^sup>1\<^sup>0\<^sup>2\<^sup>3\<close> years), so the period count is the integer
  \<open>Math_round (years * frequencyPerYear)\<close>.  \<^verbatim>\<open>Array.from\<close> throws a \<^verbatim>\<open>RangeError\<close> for
  a length above \<open>2\<^sup>3\<^sup>2 - 1\<close>.  The solver is called with the values of
  \<^verbatim>\<open>couponPayment\<close> and \<^verbatim>\<open>couponRateDecimal\<close>; when the coupon payment has overflowed
  to an infinity the outcome is \<open>NonFiniteInput\<close> again.  No statement below is about a
  request with that outcome.  The periodic yield that the solver returns in exact
  arithmetic enters the result as the nearest number.
\<close>

definition frequencyPerYearOf :: "BondCalculationInput \<Rightarrow> int" where
  "frequencyPerYearOf input = (if couponFrequency input = ''annual'' then 1 else 2)"

definition couponPaymentOf :: "real \<Rightarrow> real \<Rightarrow> int \<Rightarrow> jsnumber" where
  "couponPaymentOf face ratePct frequencyPerYear =
     js_div (js_mul (Num face) (js_div (Num ratePct) (Num 100))) (Num (of_int frequencyPerYear))"

definition calculateBondMetrics ::
  "Platform \<Rightarrow> BondCalculationInput \<Rightarrow> error + BondCalculationResult" where
  "calculateBondMetrics platform input =
     (case (faceValue input, annualCouponRatePct input, marketPrice input,
            yearsToMaturity input) of
        (Num face, Num ratePct, Num price, Num years) \<Rightarrow>
          (let frequencyPerYear = frequencyPerYearOf input;
               totalPeriods = Math_round (years * of_int frequencyPerYear)
           in if totalPeriods \<le> 0 then Inl (Error ''Total periods must be at least 1.'')
              else
                (let couponRateDecimal = js_div (Num ratePct) (Num 100);
                     annualCouponAmount = js_mul (Num face) couponRateDecimal;
                     couponPayment = js_div annualCouponAmount (Num (of_int frequencyPerYear));
                     currentYieldPct = js_mul (js_div annualCouponAmount (Num price)) (Num 100)
                 in case (couponPayment, couponRateDecimal) of
                      (Num coupon, Num rate) \<Rightarrow>
                        (let periodicYtm =
                               rnd (solvePeriodicYtm price coupon face totalPeriods
                                      (of_int frequencyPerYear) rate);
                             settlement = (if truthy (settlementDate input)
                                           then parse platform (the (settlementDate input))
                                           else now platform);
                             monthsPerPeriod = 12 div frequencyPerYear
                         in if totalPeriods > 4294967295 then Inl RangeError
                            else
                              (case schedule_loop settlement monthsPerPeriod couponPayment
                                      (Num face) totalPeriods 0 (Num 0) of
                                 Inl e \<Rightarrow> Inl e
                               | Inr rows \<Rightarrow>
                                   (let premiumDiscountAmount = js_sub (Num price) (Num face)
                                    in case toISODate settlement of
                                         None \<Rightarrow> Inl RangeError
                                       | Some isoDate \<Rightarrow>
                                           Inr \<lparr>inputs = input\<lparr>settlementDate := Some isoDate\<rparr>,
                                                annualCouponAmount = round2 annualCouponAmount,
                                                couponPayment = round2 couponPayment,
                                                totalPeriods = totalPeriods,
                                                currentYieldPct = round6 currentYieldPct,
                                                ytmPct =
                                                  round6 (js_mul
                                                    (js_mul periodicYtm
                                                       (Num (of_int frequencyPerYear)))
                                                    (Num 100)),
                                                totalInterestEarned =
                                                  round2 (js_mul couponPayment
                                                            (Num (of_int totalPeriods))),
                                                tradingStatus =
                                                  (if js_lt (Num 0) premiumDiscountAmount
                                                   then ''premium''
                                                   else if js_lt premiumDiscountAmount (Num 0)
                                                   then ''discount''
                                                   else ''par''),
                                                premiumDiscountAmount =
                                                  round2 premiumDiscountAmount,
                                                cashFlowSchedule = rows\<rparr>)))
                    | _ \<Rightarrow> Inl NonFiniteInput))
      | _ \<Rightarrow> Inl NonFiniteInput)"


section \<open>A platform for the examples\<close>

text \<open>
  A platform whose clock stands at 2026-02-23T00:00:00Z and whose parser accepts the
  date-only form \<^verbatim>\<open>YYYY-MM-DD\<close> of the ECMAScript date format, read as UTC midnight, and
  nothing else.  The examples below are evaluated on it.
\<close>

fun digits_value :: "nat \<Rightarrow> string \<Rightarrow> nat option" where
  "digits_value acc [] = Some acc"
| "digits_value acc (c # cs) =
     (case map_of (zip ''0123456789'' [0 ..< 10]) c of
        None \<Rightarrow> None
      | Some d \<Rightarrow> digits_value (acc * 10 + d) cs)"

definition parseDateOnly :: "string \<Rightarrow> Date" where
  "parseDateOnly s =
     (if length s = 10 \<and> s ! 4 = CHR ''-'' \<and> s ! 7 = CHR ''-'' then
        (case (digits_value 0 (take 4 s), digits_value 0 (take 2 (drop 5 s)),
               digits_value 0 (drop 8 s)) of
           (Some y, Some m, Some d) \<Rightarrow>
             (if 1 \<le> m \<and> m \<le> 12 \<and> 1 \<le> d
                 \<and> int d \<le> MakeDay (int y) (int m) 1 - MakeDay (int y) (int m - 1) 1
              then Some (MakeDay (int y) (int m - 1) (int d) * msPerDay)
              else None)
         | _ \<Rightarrow> None)
      else None)"

definition examplePlatform :: Platform where
  "examplePlatform = \<lparr>now = Some 1771804800000, parse = parseDateOnly\<rparr>"


text \<open>The six messages of the validator, in the order of its six tests.\<close>

definition validationMessages :: "string list" where
  "validationMessages =
     [''Face value must be positive.'', ''Annual coupon rate must be zero or greater.'',
      ''Market price must be positive.'', ''Years to maturity must be positive.'',
      ''Coupon frequency must be annual or semi-annual.'', ''Settlement date is invalid.'']"


text \<open>
  The rules of the validator, in the words of the specification: a number that is finite
  and positive, a number that is finite and not negative, and a settlement date that, when
  it is given and is not the empty string, the platform can parse.
\<close>

fun finite_positive :: "jsnumber \<Rightarrow> bool" where
  "finite_positive (Num x) = (0 < x)"
| "finite_positive v = False"

fun finite_nonnegative :: "jsnumber \<Rightarrow> bool" where
  "finite_nonnegative (Num x) = (0 \<le> x)"
| "finite_nonnegative v = False"

definition settlement_rule :: "Platform \<Rightarrow> string option \<Rightarrow> bool" where
  "settlement_rule platform date =
     (case date of None \<Rightarrow> True | Some s \<Rightarrow> s = [] \<or> parse platform s \<noteq> None)"


section \<open>Example requests\<close>

text \<open>
  The numbers of the examples are values of the format, written as fractions with a power
  of two for denominator where they are not whole.

  A valid request whose period count rounds to zero: a quarter of a year, annual coupons.
\<close>

definition short_dated :: BondCalculationInput where
  "short_dated = \<lparr>faceValue = Num 1000, annualCouponRatePct = Num 5, marketPrice = Num 950,
     yearsToMaturity = Num (1 / 4), couponFrequency = ''annual'', settlementDate = Some ''2026-02-23''\<rparr>"


text \<open>
  The other examples share the settlement date 2026-02-23.  \<open>par_bond\<close>: 1000 face, 5 %,
  priced at face, two years, annual.  \<open>tie_coupon\<close>: a 4.375 % coupon paid twice a year, so
  that the coupon payment is 21.875.  \<open>small_coupon\<close>: face 1 with a coupon of
  0.390625 %, which is 1/256 a year.  \<open>fractional_face\<close>: a face value of 1000.125 and no
  coupon.  \<open>eighth_discount\<close>: face 1 bought at 0.875.  Each is followed by the result
  record that \<^verbatim>\<open>calculateBondMetrics\<close> returns for it, a value that is not whole being
  written \<open>rnd d\<close> for the decimal \<open>d\<close> that denotes it; the yield of \<open>eighth_discount\<close>,
  which takes several Newton rounds, is left as the expression that computes it.
\<close>

definition request :: "real \<Rightarrow> real \<Rightarrow> real \<Rightarrow> real \<Rightarrow> string \<Rightarrow> BondCalculationInput" where
  "request face ratePct price years frequency =
     \<lparr>faceValue = Num face, annualCouponRatePct = Num ratePct, marketPrice = Num price,
      yearsToMaturity = Num years, couponFrequency = frequency,
      settlementDate = Some ''2026-02-23''\<rparr>"

definition annual_rows :: "jsnumber \<Rightarrow> jsnumber \<Rightarrow> jsnumber \<Rightarrow> CashFlowRow list" where
  "annual_rows coupon1 coupon2 remaining =
     [\<lparr>period = 1, paymentDate = ''2027-02-23'', rowCouponPayment = coupon1,
       cumulativeInterest = coupon1, remainingPrincipal = remaining\<rparr>,
      \<lparr>period = 2, paymentDate = ''2028-02-23'', rowCouponPayment = coupon1,
       cumulativeInterest = coupon2, remainingPrincipal = Num 0\<rparr>]"

definition par_bond :: BondCalculationInput where
  "par_bond = request 1000 5 1000 2 ''annual''"

definition par_bond_result :: BondCalculationResult where
  "par_bond_result =
     \<lparr>inputs = par_bond, annualCouponAmount = Num 50, couponPayment = Num 50, totalPeriods = 2,
      currentYieldPct = Num 5, ytmPct = Num 5, totalInterestEarned = Num 100,
      tradingStatus = ''par'', premiumDiscountAmount = Num 0,
      cashFlowSchedule = annual_rows (Num 50) (Num 100) (Num 1000)\<rparr>"

definition tie_coupon :: BondCalculationInput where
  "tie_coupon = request 1000 (35 / 8) 1000 2 ''semi-annual''"

definition tie_coupon_result :: BondCalculationResult where
  "tie_coupon_result =
     \<lparr>inputs = tie_coupon, annualCouponAmount = Num (175 / 4),
      couponPayment = rnd (2188 / 100), totalPeriods = 4, currentYieldPct = Num (35 / 8),
      ytmPct = Num (35 / 8), totalInterestEarned = Num (175 / 2), tradingStatus = ''par'',
      premiumDiscountAmount = Num 0,
      cashFlowSchedule =
        [\<lparr>period = 1, paymentDate = ''2026-08-23'', rowCouponPayment = rnd (2188 / 100),
          cumulativeInterest = rnd (2188 / 100), remainingPrincipal = Num 1000\<rparr>,
         \<lparr>period = 2, paymentDate = ''2027-02-23'', rowCouponPayment = rnd (2188 / 100),
          cumulativeInterest = Num (175 / 4), remainingPrincipal = Num 1000\<rparr>,
         \<lparr>period = 3, paymentDate = ''2027-08-23'', rowCouponPayment = rnd (2188 / 100),
          cumulativeInterest = rnd (6563 / 100), remainingPrincipal = Num 1000\<rparr>,
         \<lparr>period = 4, paymentDate = ''2028-02-23'', rowCouponPayment = rnd (2188 / 100),
          cumulativeInterest = Num (175 / 2), remainingPrincipal = Num 0\<rparr>]\<rparr>"

definition small_coupon :: BondCalculationInput where
  "small_coupon = request 1 (25 / 64) 1 3 ''annual''"

definition small_coupon_result :: BondCalculationResult where
  "small_coupon_result =
     \<lparr>inputs = small_coupon, annualCouponAmount = Num 0, couponPayment = Num 0,
      totalPeriods = 3, currentYieldPct = Num (25 / 64), ytmPct = Num (25 / 64),
      totalInterestEarned = rnd (1 / 100), tradingStatus = ''par'',
      premiumDiscountAmount = Num 0,
      cashFlowSchedule =
        [\<lparr>period = 1, paymentDate = ''2027-02-23'', rowCouponPayment = Num 0,
          cumulativeInterest = Num 0, remainingPrincipal = Num 1\<rparr>,
         \<lparr>period = 2, paymentDate = ''2028-02-23'', rowCouponPayment = Num 0,
          cumulativeInterest = rnd (1 / 100), remainingPrincipal = Num 1\<rparr>,
         \<lparr>period = 3, paymentDate = ''2029-02-23'', rowCouponPayment = Num 0,
          cumulativeInterest = rnd (1 / 100), remainingPrincipal = Num 0\<rparr>]\<rparr>"

definition fractional_face :: BondCalculationInput where
  "fractional_face = request (1000 + 1 / 8) 0 (1000 + 1 / 8) 2 ''annual''"

definition fractional_face_result :: BondCalculationResult where
  "fractional_face_result =
     \<lparr>inputs = fractional_face, annualCouponAmount = Num 0, couponPayment = Num 0,
      totalPeriods = 2, currentYieldPct = Num 0, ytmPct = Num 0, totalInterestEarned = Num 0,
      tradingStatus = ''par'', premiumDiscountAmount = Num 0,
      cashFlowSchedule = annual_rows (Num 0) (Num 0) (rnd (100013 / 100))\<rparr>"

definition eighth_discount :: BondCalculationInput where
  "eighth_discount = request 1 0 (7 / 8) 1 ''annual''"

definition eighth_discount_result :: BondCalculationResult where
  "eighth_discount_result =
     \<lparr>inputs = eighth_discount, annualCouponAmount = Num 0, couponPayment = Num 0,
      totalPeriods = 1, currentYieldPct = Num 0,
      ytmPct = round6 (js_mul (js_mul (rnd (solvePeriodicYtm (7 / 8) 0 1 1 1 0)) (Num 1))
                         (Num 100)),
      totalInterestEarned = Num 0, tradingStatus = ''discount'',
      premiumDiscountAmount = rnd (- 12 / 100),
      cashFlowSchedule =
        [\<lparr>period = 1, paymentDate = ''2027-02-23'', rowCouponPayment = Num 0,
          cumulativeInterest = Num 0, remainingPrincipal = Num 0\<rparr>]\<rparr>"


text \<open>
  \<open>near_par\<close>: the par bond with one year to run, offered at 999.99999999999, a
  hundred-billionth below its face value; the number that this decimal denotes is
  \<open>1000 - 11 / 2\<^sup>4\<^sup>0\<close>.
\<close>

definition near_par :: BondCalculationInput where
  "near_par = request 1000 5 (1000 - 11 / 2 ^ 40) 1 ''annual''"

definition near_par_result :: BondCalculationResult where
  "near_par_result =
     \<lparr>inputs = near_par, annualCouponAmount = Num 50, couponPayment = Num 50, totalPeriods = 1,
      currentYieldPct = Num 5, ytmPct = Num 5, totalInterestEarned = Num 50,
      tradingStatus = ''discount'', premiumDiscountAmount = Num 0,
      cashFlowSchedule =
        [\<lparr>period = 1, paymentDate = ''2027-02-23'', rowCouponPayment = Num 50,
          cumulativeInterest = Num 50, remainingPrincipal = Num 0\<rparr>]\<rparr>"


text \<open>
  \<open>all_wrong\<close> breaks all six rules of the validator; \<open>empty_date\<close> is the par bond with
  the empty string for its settlement date.
\<close>

definition all_wrong :: BondCalculationInput where
  "all_wrong =
     \<lparr>faceValue = Num (- 1), annualCouponRatePct = NaN, marketPrice = PosInfinity,
      yearsToMaturity = Num 0, couponFrequency = ''monthly'',
      settlementDate = Some ''tomorrow''\<rparr>"

definition empty_date :: BondCalculationInput where
  "empty_date =
     \<lparr>faceValue = Num 1000, annualCouponRatePct = Num 5, marketPrice = Num 1000,
      yearsToMaturity = Num 2, couponFrequency = ''annual'', settlementDate = Some ''''\<rparr>"


text \<open>
  Two bonds above par: \<open>near_par_premium\<close>, offered at 1000.00000000001, the number
  \<open>1000 + 11 / 2\<^sup>4\<^sup>0\<close>, and \<open>deep_premium\<close>, a zero-coupon bond of face 1 bought at 200.
  The yield of the second is left as the expression that computes it.
\<close>

definition near_par_premium :: BondCalculationInput where
  "near_par_premium = request 1000 5 (1000 + 11 / 2 ^ 40) 1 ''annual''"

definition near_par_premium_result :: BondCalculationResult where
  "near_par_premium_result =
     \<lparr>inputs = near_par_premium, annualCouponAmount = Num 50, couponPayment = Num 50,
      totalPeriods = 1, currentYieldPct = Num 5, ytmPct = Num 5, totalInterestEarned = Num 50,
      tradingStatus = ''premium'', premiumDiscountAmount = Num 0,
      cashFlowSchedule =
        [\<lparr>period = 1, paymentDate = ''2027-02-23'', rowCouponPayment = Num 50,
          cumulativeInterest = Num 50, remainingPrincipal = Num 0\<rparr>]\<rparr>"

definition deep_premium :: BondCalculationInput where
  "deep_premium = request 1 0 200 1 ''annual''"

definition deep_premium_result :: BondCalculationResult where
  "deep_premium_result =
     \<lparr>inputs = deep_premium, annualCouponAmount = Num 0, couponPayment = Num 0,
      totalPeriods = 1, currentYieldPct = Num 0,
      ytmPct = round6 (js_mul (js_mul (rnd (solvePeriodicYtm 200 0 1 1 1 0)) (Num 1))
                         (Num 100)),
      totalInterestEarned = Num 0, tradingStatus = ''premium'',
      premiumDiscountAmount = Num 199,
      cashFlowSchedule =
        [\<lparr>period = 1, paymentDate = ''2027-02-23'', rowCouponPayment = Num 0,
          cumulativeInterest = Num 0, remainingPrincipal = Num 0\<rparr>]\<rparr>"


section \<open>Binary floating point\<close>

text \<open>
  Powers of two, the exponent of a number, and the rounding \<open>nearest\<close>: it is monotone,
  odd, and leaves the values of the format where they are; such a value is a product
  \<open>m \<times> 2\<^sup>k\<close> with \<open>|m| \<le> 2\<^sup>5\<^sup>3\<close> and \<open>k \<ge> -1074\<close>.
\<close>

lemma pow2_pos [simp]: "0 < pow2 k"
  unfolding pow2_def by simp

lemma pow2_nonneg [simp]: "0 \<le> pow2 k"
  unfolding pow2_def by simp

lemma pow2_neq0 [simp]: "pow2 k \<noteq> 0"
  unfolding pow2_def by simp

lemma pow2_powr: "pow2 k = 2 powr (of_int k)"
proof (cases "0 \<le> k")
  case True
  then have "(2::real) powr (of_int k) = 2 powr (real (nat k))" by simp
  also have "\<dots> = 2 ^ nat k" by (rule powr_realpow) simp
  finally show ?thesis using True by (simp add: pow2_def)
next
  case False
  then have "(2::real) powr (of_int k) = 2 powr (- real (nat (- k)))" by simp
  also have "\<dots> = 1 / 2 powr (real (nat (- k)))" by (rule powr_minus_divide)
  also have "2 powr (real (nat (- k))) = (2::real) ^ nat (- k)" by (rule powr_realpow) simp
  finally show ?thesis using False by (simp add: pow2_def)
qed

lemma pow2_add: "pow2 (a + b) = pow2 a * pow2 b"
  by (simp add: pow2_powr powr_add)

lemma pow2_diff: "pow2 (a - b) = pow2 a / pow2 b"
  by (simp add: pow2_powr powr_diff)

lemma pow2_mono: "a \<le> b \<Longrightarrow> pow2 a \<le> pow2 b"
  by (simp add: pow2_powr)

lemma pow2_strict_mono: "a < b \<Longrightarrow> pow2 a < pow2 b"
  by (simp add: pow2_powr)

lemma pow2_Suc: "pow2 (k + 1) = 2 * pow2 k"
  by (simp add: pow2_add) (simp add: pow2_def)

lemma pow2_nat: "pow2 (int n) = 2 ^ n"
  by (simp add: pow2_def)

lemma log2_up_spec: "1 \<le> x \<Longrightarrow> 2 ^ log2_up x \<le> x \<and> x < 2 * 2 ^ log2_up x"
proof (induction x rule: log2_up.induct)
  case (1 x)
  show ?case
  proof (cases "x < 2")
    case True
    then have "log2_up x = 0" by (simp add: log2_up.simps [of x])
    then show ?thesis using True 1(2) by simp
  next
    case False
    then have s: "log2_up x = Suc (log2_up (x / 2))" by (simp add: log2_up.simps [of x])
    have "1 \<le> x / 2" using False by simp
    then have "2 ^ log2_up (x / 2) \<le> x / 2 \<and> x / 2 < 2 * 2 ^ log2_up (x / 2)"
      using 1(1) False by blast
    then show ?thesis unfolding s by simp
  qed
qed

lemma log2_down_spec:
  "0 < x \<Longrightarrow> x < 1 \<Longrightarrow> 1 \<le> x * 2 ^ log2_down x \<and> x * 2 ^ log2_down x < 2"
proof (induction x rule: log2_down.induct)
  case (1 x)
  have s: "log2_down x = Suc (log2_down (x * 2))"
    using 1(2,3) by (simp add: log2_down.simps [of x])
  show ?case
  proof (cases "1 \<le> x * 2")
    case True
    then have "log2_down (x * 2) = 0" by (simp add: log2_down.simps [of "x * 2"])
    then show ?thesis unfolding s using True 1(3) by simp
  next
    case False
    then have "1 \<le> x * 2 * 2 ^ log2_down (x * 2) \<and> x * 2 * 2 ^ log2_down (x * 2) < 2"
      using 1 by auto
    then show ?thesis unfolding s by (simp add: mult.assoc)
  qed
qed

lemma exponent_spec:
  assumes "x \<noteq> 0"
  shows "pow2 (exponent x) \<le> \<bar>x\<bar> \<and> \<bar>x\<bar> < 2 * pow2 (exponent x)"
proof (cases "1 \<le> \<bar>x\<bar>")
  case True
  then show ?thesis using log2_up_spec [of "\<bar>x\<bar>"] by (simp add: exponent_def pow2_nat)
next
  case False
  then have a: "0 < \<bar>x\<bar>" "\<bar>x\<bar> < 1" using assms by auto
  define n where "n = log2_down \<bar>x\<bar>"
  have n: "1 \<le> \<bar>x\<bar> * 2 ^ n \<and> \<bar>x\<bar> * 2 ^ n < 2"
    unfolding n_def using a by (rule log2_down_spec)
  have e: "exponent x = - int n" using False by (simp add: exponent_def n_def)
  have p: "pow2 (- int n) = 1 / 2 ^ n"
    by (simp add: pow2_powr powr_minus_divide powr_realpow)
  show ?thesis unfolding e p using n by (simp add: field_simps)
qed

lemma exponent_unique:
  assumes "pow2 e \<le> \<bar>x\<bar>" and "\<bar>x\<bar> < 2 * pow2 e"
  shows "exponent x = e"
proof -
  have "0 < \<bar>x\<bar>" by (rule less_le_trans [OF pow2_pos assms(1)])
  then have "x \<noteq> 0" by simp
  then have s: "pow2 (exponent x) \<le> \<bar>x\<bar>" "\<bar>x\<bar> < pow2 (exponent x + 1)"
    using exponent_spec [of x] by (simp_all add: pow2_Suc)
  have "\<not> exponent x < e"
  proof
    assume "exponent x < e"
    then have "pow2 (exponent x + 1) \<le> pow2 e" by (intro pow2_mono) simp
    then show False using s(2) assms(1) by simp
  qed
  moreover have "\<not> e < exponent x"
  proof
    assume "e < exponent x"
    then have "pow2 (e + 1) \<le> pow2 (exponent x)" by (intro pow2_mono) simp
    then show False using s(1) assms(2) by (simp add: pow2_Suc)
  qed
  ultimately show ?thesis by simp
qed

lemma exponent_minus [simp]: "exponent (- x) = exponent x"
  by (simp add: exponent_def)

lemma exponent_mono:
  assumes "x \<noteq> 0" and "\<bar>x\<bar> \<le> \<bar>y\<bar>"
  shows "exponent x \<le> exponent y"
proof (rule ccontr)
  assume "\<not> exponent x \<le> exponent y"
  then have "pow2 (exponent y + 1) \<le> pow2 (exponent x)" by (intro pow2_mono) simp
  moreover have "y \<noteq> 0" using assms by auto
  ultimately show False
    using exponent_spec [of x] exponent_spec [of y] assms by (simp add: pow2_Suc)
qed

lemma quantum_pos [simp]: "0 < quantum x"
  by (simp add: quantum_def)

lemma quantum_nonneg [simp]: "0 \<le> quantum x"
  by (simp add: quantum_def)

lemma quantum_neq0 [simp]: "quantum x \<noteq> 0"
  by (simp add: quantum_def)

lemma quantum_minus [simp]: "quantum (- x) = quantum x"
  by (simp add: quantum_def)

lemma quantum_normal:
  "pow2 e \<le> \<bar>x\<bar> \<Longrightarrow> \<bar>x\<bar> < 2 * pow2 e \<Longrightarrow> - 1022 \<le> e \<Longrightarrow> quantum x = pow2 (e - 52)"
  by (simp add: quantum_def exponent_unique)

lemma round_even_range: "\<lfloor>y\<rfloor> \<le> round_even y \<and> round_even y \<le> \<lfloor>y\<rfloor> + 1"
  by (simp add: round_even_def Let_def)

lemma round_even_of_int [simp]: "round_even (of_int n) = n"
  by (simp add: round_even_def)

lemma round_even_0 [simp]: "round_even 0 = 0"
  by (simp add: round_even_def)

lemma round_even_mono:
  assumes "a \<le> b"
  shows "round_even a \<le> round_even b"
proof (cases "\<lfloor>a\<rfloor> = \<lfloor>b\<rfloor>")
  case True
  have "a - of_int \<lfloor>b\<rfloor> \<le> b - of_int \<lfloor>b\<rfloor>" using assms by simp
  then show ?thesis unfolding round_even_def Let_def True by auto
next
  case False
  then have "\<lfloor>a\<rfloor> + 1 \<le> \<lfloor>b\<rfloor>" using floor_mono [OF assms] by simp
  then show ?thesis using round_even_range [of a] round_even_range [of b] by linarith
qed

lemma round_even_minus: "round_even (- y) = - round_even y"
proof (cases "y = of_int \<lfloor>y\<rfloor>")
  case True
  then obtain n where "y = of_int n" ..
  then have "- y = of_int (- n)" by simp
  then show ?thesis unfolding \<open>y = of_int n\<close> by (simp only: round_even_of_int)
next
  case False
  then have c: "\<lceil>y\<rceil> = \<lfloor>y\<rfloor> + 1" by (simp add: ceiling_altdef)
  have f: "\<lfloor>- y\<rfloor> = - \<lfloor>y\<rfloor> - 1" using c by (simp add: floor_minus)
  have d: "- y - of_int (- \<lfloor>y\<rfloor> - 1) = 1 - (y - of_int \<lfloor>y\<rfloor>)" by simp
  show ?thesis unfolding round_even_def Let_def f d by auto
qed

lemma round_even_nonneg: "0 \<le> y \<Longrightarrow> 0 \<le> round_even y"
  using round_even_mono [of 0 y] by simp

lemma nearest_0 [simp]: "nearest 0 = 0"
  by (simp add: nearest_def)

lemma nearest_minus: "nearest (- x) = - nearest x"
  by (simp add: nearest_def round_even_minus)

lemma nearest_nonneg: "0 \<le> x \<Longrightarrow> 0 \<le> nearest x"
  by (simp add: nearest_def round_even_nonneg)

lemma pow2_52: "pow2 k * 2 ^ 52 = pow2 (k + 52)"
  by (simp add: pow2_add) (simp add: pow2_def)

lemma nearest_upper:
  assumes "0 < x"
  shows "nearest x \<le> pow2 (max (exponent x) (- 1022) + 1)"
proof -
  define e where "e = max (exponent x) (- 1022)"
  define q where "q = pow2 (e - 52)"
  have q: "quantum x = q" by (simp add: quantum_def q_def e_def)
  have "x < pow2 (exponent x + 1)" using exponent_spec [of x] assms by (simp add: pow2_Suc)
  also have "\<dots> \<le> pow2 (e + 1)" by (intro pow2_mono) (simp add: e_def)
  also have "\<dots> = 2 ^ 53 * q" by (simp add: q_def pow2_diff pow2_Suc) (simp add: pow2_def)
  finally have "x / q \<le> of_int (2 ^ 53)" by (simp add: q_def field_simps)
  then have "round_even (x / q) \<le> 2 ^ 53"
    using round_even_mono [of "x / q" "of_int (2 ^ 53)"] by (simp only: round_even_of_int)
  then have "of_int (round_even (x / q)) * q \<le> of_int (2 ^ 53) * q"
    by (intro mult_right_mono) (simp_all add: q_def)
  also have "of_int (2 ^ 53) * q = pow2 (e + 1)"
    by (simp add: q_def pow2_diff pow2_Suc) (simp add: pow2_def)
  finally show ?thesis unfolding nearest_def q e_def .
qed

lemma nearest_lower:
  assumes "0 < x" and "- 1022 \<le> exponent x"
  shows "pow2 (exponent x) \<le> nearest x"
proof -
  define e where "e = exponent x"
  define q where "q = pow2 (e - 52)"
  have q: "quantum x = q" using assms(2) by (simp add: quantum_def q_def e_def max_def)
  have e: "pow2 e = 2 ^ 52 * q" by (simp add: q_def pow2_diff) (simp add: pow2_def)
  have "pow2 e \<le> x" using exponent_spec [of x] assms by (simp add: e_def)
  then have "of_int (2 ^ 52) \<le> x / q" unfolding e by (simp add: q_def field_simps)
  then have "2 ^ 52 \<le> round_even (x / q)"
    using round_even_mono [of "of_int (2 ^ 52)" "x / q"] by (simp only: round_even_of_int)
  then have "of_int (2 ^ 52) * q \<le> of_int (round_even (x / q)) * q"
    by (intro mult_right_mono) (simp_all add: q_def)
  then show ?thesis unfolding nearest_def q using e by (simp add: e_def)
qed

lemma nearest_mono_pos:
  assumes "0 < x" and "x \<le> y"
  shows "nearest x \<le> nearest y"
proof -
  define ex where "ex = max (exponent x) (- 1022)"
  define ey where "ey = max (exponent y) (- 1022)"
  have y: "0 < y" using assms by simp
  have "exponent x \<le> exponent y" using assms by (intro exponent_mono) auto
  then have le: "ex \<le> ey" by (simp add: ex_def ey_def)
  show ?thesis
  proof (cases "ex = ey")
    case True
    then have q: "quantum x = quantum y" by (simp add: quantum_def ex_def ey_def)
    have "x / quantum y \<le> y / quantum y" using assms(2) by (intro divide_right_mono) simp_all
    then have "round_even (x / quantum y) \<le> round_even (y / quantum y)" by (rule round_even_mono)
    then show ?thesis unfolding nearest_def q by (intro mult_right_mono) simp_all
  next
    case False
    then have lt: "ex + 1 \<le> ey" using le by simp
    then have n: "- 1022 \<le> exponent y" "ey = exponent y" by (simp_all add: ex_def ey_def)
    have "nearest x \<le> pow2 (ex + 1)" unfolding ex_def using assms(1) by (rule nearest_upper)
    also have "\<dots> \<le> pow2 ey" using lt by (rule pow2_mono)
    also have "\<dots> \<le> nearest y" unfolding n(2) using y n(1) by (rule nearest_lower)
    finally show ?thesis .
  qed
qed

lemma nearest_mono:
  assumes "x \<le> y"
  shows "nearest x \<le> nearest y"
proof -
  consider "0 < x" | "x \<le> 0" "0 \<le> y" | "y < 0" by linarith
  then show ?thesis
  proof cases
    case 1
    then show ?thesis using assms by (rule nearest_mono_pos)
  next
    case 2
    have "nearest x = - nearest (- x)" by (simp add: nearest_minus)
    moreover have "0 \<le> nearest (- x)" using 2(1) by (intro nearest_nonneg) simp
    moreover have "0 \<le> nearest y" using 2(2) by (rule nearest_nonneg)
    ultimately show ?thesis by simp
  next
    case 3
    then have "nearest (- y) \<le> nearest (- x)" using assms by (intro nearest_mono_pos) simp_all
    then show ?thesis by (simp add: nearest_minus)
  qed
qed


lemma nearest_integral:
  assumes "x / quantum x = of_int n"
  shows "nearest x = x"
proof -
  have "nearest x = of_int n * quantum x" unfolding nearest_def assms by simp
  also have "\<dots> = x / quantum x * quantum x" using assms by simp
  also have "\<dots> = x" by simp
  finally show ?thesis .
qed

lemma pow2_nonneg_int: "0 \<le> k \<Longrightarrow> pow2 k = of_int (2 ^ nat k)"
  by (simp add: pow2_def)

lemma nearest_exact:
  assumes x: "x = of_int m * pow2 k" and m: "\<bar>m\<bar> \<le> 2 ^ 53" and k: "- 1074 \<le> k"
  shows "nearest x = x"
proof (cases "x = 0")
  case True
  then show ?thesis by simp
next
  case False
  define e where "e = max (exponent x) (- 1022)"
  have q: "quantum x = pow2 (e - 52)" by (simp add: quantum_def e_def)
  have "\<exists>n. x / pow2 (e - 52) = of_int n"
  proof (cases "e - 52 \<le> k")
    case True
    have "x / pow2 (e - 52) = of_int m * pow2 (k - (e - 52))" by (simp add: x pow2_diff)
    also have "\<dots> = of_int (m * 2 ^ nat (k - (e - 52)))"
      using True by (simp add: pow2_nonneg_int)
    finally show ?thesis ..
  next
    case False
    then have ke: "k + 53 \<le> e" by simp
    then have ee: "e = exponent x" using k by (simp add: e_def max_def split: if_splits)
    have "\<bar>x\<bar> = of_int \<bar>m\<bar> * pow2 k" by (simp add: x abs_mult)
    also have "\<dots> \<le> of_int (2 ^ 53) * pow2 k" using m by (intro mult_right_mono) simp_all
    also have "\<dots> = pow2 (k + 53)" by (simp add: pow2_add) (simp add: pow2_def)
    finally have up: "\<bar>x\<bar> \<le> pow2 (k + 53)" .
    have lo: "pow2 e \<le> \<bar>x\<bar>" unfolding ee using exponent_spec [of x] \<open>x \<noteq> 0\<close> by simp
    have "\<not> k + 53 < e"
    proof
      assume "k + 53 < e"
      then have "pow2 (k + 53) < pow2 e" by (rule pow2_strict_mono)
      then show False using up lo by simp
    qed
    then have e: "e = k + 53" using ke by simp
    have ax: "\<bar>x\<bar> = pow2 (k + 53)" using up lo unfolding e by simp
    have e52: "e - 52 = k + 1" using e by simp
    have "\<bar>x / pow2 (e - 52)\<bar> = \<bar>x\<bar> / pow2 (e - 52)" by (simp add: abs_divide)
    also have "\<dots> = pow2 (k + 53) / pow2 (k + 1)" by (simp only: ax e52)
    also have "pow2 (k + 53) = pow2 52 * pow2 (k + 1)"
    proof -
      have "k + 53 = 52 + (k + 1)" by simp
      then show ?thesis by (simp only: pow2_add)
    qed
    also have "pow2 52 * pow2 (k + 1) / pow2 (k + 1) = of_int (2 ^ 52)" by (simp add: pow2_def)
    finally have "x / pow2 (e - 52) = of_int (2 ^ 52) \<or> x / pow2 (e - 52) = of_int (- (2 ^ 52))"
      by (simp add: abs_if split: if_splits)
    then show ?thesis by blast
  qed
  then obtain n where "x / quantum x = of_int n" unfolding q ..
  then show ?thesis by (rule nearest_integral)
qed

lemma nearest_form:
  "\<exists>m. nearest x = of_int m * pow2 (max (exponent x) (- 1022) - 52) \<and> \<bar>m\<bar> \<le> 2 ^ 53"
proof (cases "x = 0")
  case True
  then show ?thesis by (intro exI [of _ 0]) simp
next
  case False
  define e where "e = max (exponent x) (- 1022)"
  define q where "q = pow2 (e - 52)"
  have q: "quantum x = q" by (simp add: quantum_def e_def q_def)
  have "\<bar>x\<bar> < pow2 (exponent x + 1)" using exponent_spec [of x] False by (simp add: pow2_Suc)
  also have "\<dots> \<le> pow2 (e + 1)" by (intro pow2_mono) (simp add: e_def)
  also have "\<dots> = 2 ^ 53 * q" by (simp add: q_def pow2_diff pow2_Suc) (simp add: pow2_def)
  finally have a: "\<bar>x\<bar> / q \<le> of_int (2 ^ 53)" by (simp add: q_def field_simps)
  have "x / q \<le> \<bar>x\<bar> / q" by (intro divide_right_mono) (simp_all add: q_def)
  moreover have "(- \<bar>x\<bar>) / q \<le> x / q" by (intro divide_right_mono) (simp_all add: q_def)
  ultimately have "of_int (- (2 ^ 53)) \<le> x / q" "x / q \<le> of_int (2 ^ 53)" using a by simp_all
  then have "- (2 ^ 53) \<le> round_even (x / q)" "round_even (x / q) \<le> 2 ^ 53"
    using round_even_mono [of "of_int (- (2 ^ 53))" "x / q"]
      round_even_mono [of "x / q" "of_int (2 ^ 53)"]
    by (simp_all only: round_even_of_int)
  then have "\<bar>round_even (x / q)\<bar> \<le> 2 ^ 53" by simp
  then show ?thesis unfolding nearest_def q by (intro exI [of _ "round_even (x / q)"]) (simp add: q_def e_def)
qed

lemma nearest_idem: "nearest (nearest x) = nearest x"
proof -
  obtain m where m: "nearest x = of_int m * pow2 (max (exponent x) (- 1022) - 52)" "\<bar>m\<bar> \<le> 2 ^ 53"
    using nearest_form [of x] by blast
  show ?thesis using m by (rule nearest_exact) simp
qed

lemma is_double_iff: "is_double x = (nearest x = x \<and> \<bar>x\<bar> < 2 ^ 1024)"
  unfolding is_double_def rnd_def Let_def by auto

lemma rnd_Num: "rnd x = Num r \<Longrightarrow> r = nearest x \<and> \<bar>r\<bar> < 2 ^ 1024"
  unfolding rnd_def Let_def by (auto split: if_splits)

lemma rnd_is_double: "rnd x = Num r \<Longrightarrow> is_double r"
  using rnd_Num [of x r] nearest_idem [of x] by (auto simp: is_double_iff)

lemma rnd_double: "is_double x \<Longrightarrow> rnd x = Num x"
  by (simp add: is_double_def)

lemma is_doubleI:
  "x = of_int m * pow2 k \<Longrightarrow> \<bar>m\<bar> \<le> 2 ^ 53 \<Longrightarrow> - 1074 \<le> k \<Longrightarrow> \<bar>x\<bar> < 2 ^ 1024 \<Longrightarrow> is_double x"
  by (simp add: is_double_iff nearest_exact)

lemma is_double_grid:
  assumes "is_double x"
  shows "\<exists>n. x = of_int n * pow2 (- 1074)"
proof -
  define k where "k = max (exponent x) (- 1022) - 52"
  obtain m where "nearest x = of_int m * pow2 k"
    using nearest_form [of x] unfolding k_def by blast
  then have "x = of_int m * pow2 k" using assms by (simp add: is_double_iff)
  also have "pow2 k = pow2 (k + 1074) * pow2 (- 1074)"
    using pow2_add [of "k + 1074" "- 1074"] by simp
  also have "pow2 (k + 1074) = of_int (2 ^ nat (k + 1074))"
    by (rule pow2_nonneg_int) (simp add: k_def)
  finally have "x = of_int (m * 2 ^ nat (k + 1074)) * pow2 (- 1074)" by simp
  then show ?thesis ..
qed

lemma rnd_mono: "x \<le> y \<Longrightarrow> js_le (rnd x) (rnd y)"
  using nearest_mono [of x y] unfolding rnd_def Let_def by auto

lemma rnd_ordered: "rnd x \<noteq> NaN \<and> rnd x \<noteq> NotNumber"
  unfolding rnd_def Let_def by simp

lemma nearest_least: "nearest (pow2 (- 1074)) = pow2 (- 1074)"
  using nearest_exact [of "pow2 (- 1074)" 1 "- 1074"] by simp

lemma difference_sign:
  assumes "is_double a" and "is_double b" and "a < b"
  shows "nearest (a - b) < 0"
proof -
  obtain n where n: "a = of_int n * pow2 (- 1074)" using is_double_grid [OF assms(1)] ..
  obtain k where k: "b = of_int k * pow2 (- 1074)" using is_double_grid [OF assms(2)] ..
  have "of_int n * pow2 (- 1074) < of_int k * pow2 (- 1074)" using assms(3) n k by simp
  then have "n < k" by simp
  then have "of_int (n - k) \<le> (- 1 :: real)" by simp
  then have "of_int (n - k) * pow2 (- 1074) \<le> - 1 * pow2 (- 1074)"
    by (intro mult_right_mono) simp_all
  then have "a - b \<le> - pow2 (- 1074)" unfolding n k by (simp add: algebra_simps)
  then have "nearest (a - b) \<le> nearest (- pow2 (- 1074))" by (rule nearest_mono)
  also have "\<dots> = - pow2 (- 1074)" by (simp add: nearest_minus nearest_least)
  also have "\<dots> < 0" by simp
  finally show ?thesis .
qed

lemma js_sub_Num: "js_sub (Num a) (Num b) = rnd (a - b)"
  by (simp add: js_sub_def)

lemma js_sub_less:
  assumes "is_double a" and "is_double b" and "a < b"
  shows "js_lt (js_sub (Num a) (Num b)) (Num 0)" and "\<not> js_lt (Num 0) (js_sub (Num a) (Num b))"
  using difference_sign [OF assms] unfolding js_sub_Num rnd_def Let_def by auto

lemma js_sub_greater:
  assumes "is_double a" and "is_double b" and "b < a"
  shows "js_lt (Num 0) (js_sub (Num a) (Num b))"
proof -
  have "nearest (b - a) < 0" using assms(2,1,3) by (rule difference_sign)
  then have "0 < nearest (a - b)" using nearest_minus [of "b - a"] by simp
  then show ?thesis unfolding js_sub_Num rnd_def Let_def by auto
qed

lemma rnd_0 [simp]: "rnd 0 = Num 0"
  by (simp add: rnd_def)

lemma js_le_refl: "v \<noteq> NaN \<Longrightarrow> v \<noteq> NotNumber \<Longrightarrow> js_le v v"
  by (cases v) simp_all

lemma js_le_trans: "js_le a b \<Longrightarrow> js_le b c \<Longrightarrow> js_le a c"
  by (cases a; cases b; cases c) simp_all

lemma rnd_bounds [simp]: "js_le (rnd x) PosInfinity" "js_le NegInfinity (rnd x)"
  unfolding rnd_def Let_def by simp_all

lemma rnd_nonneg: "0 \<le> x \<Longrightarrow> rnd x = Num r \<Longrightarrow> 0 \<le> r"
  using nearest_nonneg [of x] rnd_Num [of x r] by simp

lemma rnd_nonneg_cases:
  assumes "0 \<le> x"
  shows "rnd x = PosInfinity \<or> (\<exists>r. rnd x = Num r \<and> 0 \<le> r \<and> is_double r)"
proof (cases "rnd x")
  case (Num r)
  then show ?thesis using rnd_nonneg [OF assms Num] rnd_is_double [OF Num] by simp
next
  case NegInfinity
  then show ?thesis using nearest_nonneg [OF assms] unfolding rnd_def Let_def
    by (simp split: if_splits)
qed (simp_all add: rnd_ordered)

lemma js_add_mono: "js_le a b \<Longrightarrow> js_le (js_add a (Num c)) (js_add b (Num c))"
  by (cases a; cases b) (simp_all add: rnd_mono)

lemma js_mul_mono: "0 < c \<Longrightarrow> js_le a b \<Longrightarrow> js_le (js_mul a (Num c)) (js_mul b (Num c))"
  by (cases a; cases b) (simp_all add: rnd_mono)

lemma js_div_mono: "0 < c \<Longrightarrow> js_le a b \<Longrightarrow> js_le (js_div a (Num c)) (js_div b (Num c))"
  by (cases a; cases b) (simp_all add: rnd_mono divide_right_mono)


section \<open>Rounding\<close>

lemma Math_round_bounds: "of_int (Math_round x) - 1 / 2 \<le> x \<and> x < of_int (Math_round x) + 1 / 2"
  unfolding Math_round_def by linarith

lemma Math_round_half: "Math_round (of_int k + 1 / 2) = k + 1"
  unfolding Math_round_def by linarith

lemma Math_round_mono: "x \<le> y \<Longrightarrow> Math_round x \<le> Math_round y"
  unfolding Math_round_def by (simp add: floor_mono)

lemma js_round_mono: "js_le a b \<Longrightarrow> js_le (js_round a) (js_round b)"
  by (cases a; cases b) (simp_all add: Math_round_mono)

lemma round2_mono: "js_le a b \<Longrightarrow> js_le (round2 a) (round2 b)"
  unfolding round2_def by (intro js_div_mono js_round_mono js_mul_mono js_add_mono) simp_all

lemma round6_mono: "js_le a b \<Longrightarrow> js_le (round6 a) (round6 b)"
  unfolding round6_def by (intro js_div_mono js_round_mono js_mul_mono js_add_mono) simp_all

lemma js_div_round_grid:
  assumes "js_div (js_round w) (Num c) = Num r" and "c \<noteq> 0"
  shows "\<exists>k. rnd (of_int k / c) = Num r"
  using assms by (cases w) (auto split: if_splits)

lemma round2_grid: "round2 v = Num r \<Longrightarrow> \<exists>k. rnd (of_int k / 100) = Num r"
  unfolding round2_def by (rule js_div_round_grid) simp_all

lemma round6_grid: "round6 v = Num r \<Longrightarrow> \<exists>k. rnd (of_int k / 1000000) = Num r"
  unfolding round6_def by (rule js_div_round_grid) simp_all

text \<open>The equations that evaluate a rounding at a numeral.\<close>

lemmas evaluate_rnd = rnd_def nearest_def quantum_def exponent_def log2_up.simps
  log2_down.simps pow2_def round_even_def Let_def

lemmas evaluate_rounding = round2_def round6_def Number_EPSILON_def Math_round_def js_sub_def
  evaluate_rnd


text \<open>
  Values at which the arithmetic of the format shows.  The decimals 2.175 and 2.0000085
  denote numbers just below the half-way points, and adding \<^verbatim>\<open>Number.EPSILON\<close> does not
  lift them over; \<open>10\<^sup>2\<^sup>1 \<times> 100\<close> is not a value of the format; three coupon payments of a
  bond of face 23 at 9 %, paid twice a year, are 3.105 in decimals and are returned as
  3.1; and the third cumulative interest of a bond of face 53 at 9 % is 7.15, where
  3 \<times> 2.385 = 7.155.
\<close>

lemma rounding_in_doubles:
  "round2 (rnd (2175 / 1000)) = rnd (217 / 100)"
  "round6 (rnd (20000085 / 10000000)) = rnd (2000008 / 1000000)"
  "round2 (Num (10 ^ 21)) = Num 999999999999999868928"
  "round2 (js_mul (couponPaymentOf 23 9 2) (Num 3)) = rnd (310 / 100)"
  "round2 (interest_after (Num 0) (couponPaymentOf 53 9 2) (Suc (Suc (Suc 0)))) = rnd (715 / 100)"
  by (simp_all add: couponPaymentOf_def evaluate_rounding)


section \<open>The rows of the schedule\<close>

lemma schedule_loop_length:
  "schedule_loop s m c f n i cum = Inr rows \<Longrightarrow> length rows = nat (n - i)"
proof (induction s m c f n i cum arbitrary: rows rule: schedule_loop.induct)
  case (1 s m c f n i cum)
  show ?case
  proof (cases "i < n")
    case False
    with "1.prems" show ?thesis by (simp add: schedule_loop.simps)
  next
    case True
    from "1.prems" True obtain isoDate rest where
      d: "toISODate (addMonthsClamped s (m * (i + 1))) = Some isoDate"
      and r: "schedule_loop s m c f n (i + 1) (js_add cum c) = Inr rest"
      and rows: "length rows = Suc (length rest)"
      by (subst (asm) schedule_loop.simps) (auto simp: Let_def split: option.splits sum.splits)
    from "1.IH" [OF True refl refl refl d r] have "length rest = nat (n - (i + 1))" .
    with rows True show ?thesis by simp
  qed
qed

lemma interest_after_shift:
  "interest_after (js_add cum c) c n = interest_after cum c (Suc n)"
  by (induction n) simp_all

lemma interest_after_cases:
  assumes "0 \<le> c"
  shows "interest_after (Num 0) (Num c) n = PosInfinity
         \<or> (\<exists>s. interest_after (Num 0) (Num c) n = Num s \<and> 0 \<le> s \<and> is_double s)"
proof (induction n)
  case 0
  show ?case by (simp add: is_double_def)
next
  case (Suc n)
  then show ?case
  proof
    assume "interest_after (Num 0) (Num c) n = PosInfinity"
    then show ?thesis by simp
  next
    assume "\<exists>s. interest_after (Num 0) (Num c) n = Num s \<and> 0 \<le> s \<and> is_double s"
    then obtain s where s: "interest_after (Num 0) (Num c) n = Num s" "0 \<le> s" by blast
    from rnd_nonneg_cases [of "s + c"] assms s(2) show ?thesis by (simp add: s(1))
  qed
qed

lemma interest_after_step:
  assumes "0 \<le> c"
  shows "js_le (interest_after (Num 0) (Num c) n) (interest_after (Num 0) (Num c) (Suc n))"
proof -
  from interest_after_cases [OF assms, of n] show ?thesis
  proof
    assume "interest_after (Num 0) (Num c) n = PosInfinity"
    then show ?thesis by simp
  next
    assume "\<exists>s. interest_after (Num 0) (Num c) n = Num s \<and> 0 \<le> s \<and> is_double s"
    then obtain s where s: "interest_after (Num 0) (Num c) n = Num s" "is_double s" by blast
    have "js_le (rnd s) (rnd (s + c))" using assms by (intro rnd_mono) simp
    then show ?thesis using s by (simp add: rnd_double)
  qed
qed

lemma interest_after_mono:
  assumes "0 \<le> c" and "n \<le> m"
  shows "js_le (interest_after (Num 0) (Num c) n) (interest_after (Num 0) (Num c) m)"
  using assms(2)
proof (induction m)
  case 0
  then show ?case by simp
next
  case (Suc m)
  show ?case
  proof (cases "n = Suc m")
    case True
    from interest_after_cases [OF assms(1), of n] show ?thesis unfolding True [symmetric]
      by (auto intro: js_le_refl)
  next
    case False
    with Suc have "js_le (interest_after (Num 0) (Num c) n) (interest_after (Num 0) (Num c) m)"
      by simp
    then show ?thesis using interest_after_step [OF assms(1), of m] by (rule js_le_trans)
  qed
qed


lemma schedule_loop_nth:
  "schedule_loop s m c f n i cum = Inr rows \<Longrightarrow> j < length rows \<Longrightarrow>
     period (rows ! j) = i + 1 + int j
     \<and> rowCouponPayment (rows ! j) = round2 c
     \<and> cumulativeInterest (rows ! j) = round2 (interest_after cum c (Suc j))
     \<and> remainingPrincipal (rows ! j) = (if i + 1 + int j = n then Num 0 else round2 f)"
proof (induction s m c f n i cum arbitrary: rows j rule: schedule_loop.induct)
  case (1 s m c f n i cum)
  show ?case
  proof (cases "i < n")
    case False
    with "1.prems" show ?thesis by (simp add: schedule_loop.simps)
  next
    case True
    from "1.prems"(1) True obtain isoDate rest where
      d: "toISODate (addMonthsClamped s (m * (i + 1))) = Some isoDate"
      and r: "schedule_loop s m c f n (i + 1) (js_add cum c) = Inr rest"
      and rows: "rows = \<lparr>period = i + 1, paymentDate = isoDate, rowCouponPayment = round2 c,
                         cumulativeInterest = round2 (js_add cum c),
                         remainingPrincipal = (if i + 1 = n then Num 0 else round2 f)\<rparr> # rest"
      by (subst (asm) schedule_loop.simps) (auto simp: Let_def split: option.splits sum.splits)
    show ?thesis
    proof (cases j)
      case 0
      with rows show ?thesis by simp
    next
      case (Suc k)
      with "1.prems"(2) rows have k: "k < length rest" by simp
      from "1.IH" [OF True refl refl refl d r k] Suc rows show ?thesis
        by (simp add: algebra_simps interest_after_shift del: interest_after.simps)
    qed
  qed
qed


section \<open>The fields of a result\<close>

lemma calculateBondMetrics_numeric:
  assumes "calculateBondMetrics p i = Inr r"
  shows "\<exists>face ratePct price years.
           faceValue i = Num face \<and> annualCouponRatePct i = Num ratePct
           \<and> marketPrice i = Num price \<and> yearsToMaturity i = Num years"
  using assms unfolding calculateBondMetrics_def
  by (cases "faceValue i"; cases "annualCouponRatePct i"; cases "marketPrice i";
      cases "yearsToMaturity i") simp_all

lemma calculateBondMetrics_fields:
  assumes "calculateBondMetrics p i = Inr r"
    and "faceValue i = Num face" and "annualCouponRatePct i = Num ratePct"
    and "marketPrice i = Num price" and "yearsToMaturity i = Num years"
  shows "totalPeriods r = Math_round (years * of_int (frequencyPerYearOf i))"
    and "0 < totalPeriods r"
    and "annualCouponAmount r = round2 (js_mul (Num face) (js_div (Num ratePct) (Num 100)))"
    and "couponPayment r = round2 (couponPaymentOf face ratePct (frequencyPerYearOf i))"
    and "currentYieldPct r =
           round6 (js_mul (js_div (js_mul (Num face) (js_div (Num ratePct) (Num 100))) (Num price))
                     (Num 100))"
    and "\<exists>coupon rate.
           couponPaymentOf face ratePct (frequencyPerYearOf i) = Num coupon
           \<and> js_div (Num ratePct) (Num 100) = Num rate
           \<and> ytmPct r =
               round6 (js_mul
                 (js_mul (rnd (solvePeriodicYtm price coupon face (totalPeriods r)
                                 (of_int (frequencyPerYearOf i)) rate))
                    (Num (of_int (frequencyPerYearOf i))))
                 (Num 100))"
    and "totalInterestEarned r =
           round2 (js_mul (couponPaymentOf face ratePct (frequencyPerYearOf i))
                     (Num (of_int (totalPeriods r))))"
    and "tradingStatus r =
           (if js_lt (Num 0) (js_sub (Num price) (Num face)) then ''premium''
            else if js_lt (js_sub (Num price) (Num face)) (Num 0) then ''discount''
            else ''par'')"
    and "premiumDiscountAmount r = round2 (js_sub (Num price) (Num face))"
    and "schedule_loop
           (if truthy (settlementDate i) then parse p (the (settlementDate i)) else now p)
           (12 div frequencyPerYearOf i)
           (couponPaymentOf face ratePct (frequencyPerYearOf i)) (Num face) (totalPeriods r) 0
           (Num 0)
         = Inr (cashFlowSchedule r)"
  using assms unfolding calculateBondMetrics_def couponPaymentOf_def
  by (auto simp: Let_def simp del: js_add.simps js_mul.simps js_div.simps
      split: if_splits sum.splits option.splits jsnumber.splits)

lemma calculateBondMetrics_rows:
  assumes "calculateBondMetrics p i = Inr r"
    and "faceValue i = Num face" and "annualCouponRatePct i = Num ratePct"
    and "j < length (cashFlowSchedule r)"
  shows "length (cashFlowSchedule r) = nat (totalPeriods r)"
    and "period (cashFlowSchedule r ! j) = int j + 1"
    and "rowCouponPayment (cashFlowSchedule r ! j)
           = round2 (couponPaymentOf face ratePct (frequencyPerYearOf i))"
    and "cumulativeInterest (cashFlowSchedule r ! j)
           = round2 (interest_after (Num 0) (couponPaymentOf face ratePct (frequencyPerYearOf i))
                       (Suc j))"
    and "remainingPrincipal (cashFlowSchedule r ! j)
           = (if j + 1 = length (cashFlowSchedule r) then Num 0 else round2 (Num face))"
proof -
  from calculateBondMetrics_numeric [OF assms(1)] obtain price years where
    n: "marketPrice i = Num price" "yearsToMaturity i = Num years" by blast
  note f = calculateBondMetrics_fields [OF assms(1,2,3) n]
  note l = schedule_loop_length [OF f(10)]
  note s = schedule_loop_nth [OF f(10) assms(4)]
  from l show "length (cashFlowSchedule r) = nat (totalPeriods r)" by simp
  from s show "period (cashFlowSchedule r ! j) = int j + 1" by simp
  from s show "rowCouponPayment (cashFlowSchedule r ! j)
           = round2 (couponPaymentOf face ratePct (frequencyPerYearOf i))" by simp
  from s show "cumulativeInterest (cashFlowSchedule r ! j)
           = round2 (interest_after (Num 0) (couponPaymentOf face ratePct (frequencyPerYearOf i))
                       (Suc j))"
    by blast
  from s l f(2) show "remainingPrincipal (cashFlowSchedule r ! j)
           = (if j + 1 = length (cashFlowSchedule r) then Num 0 else round2 (Num face))"
    by (auto simp: nat_eq_iff)
qed


lemma couponPaymentOf_nonneg:
  assumes "0 < face" and "0 \<le> ratePct" and "0 < f"
    and "couponPaymentOf face ratePct f = Num c"
  shows "0 \<le> c \<and> is_double c"
proof -
  from rnd_nonneg_cases [of "ratePct / 100"] assms(2)
  consider "rnd (ratePct / 100) = PosInfinity"
    | d where "rnd (ratePct / 100) = Num d" "0 \<le> d" by auto
  then show ?thesis
  proof cases
    case 1
    with assms(1,3,4) show ?thesis by (simp add: couponPaymentOf_def)
  next
    case 2
    from rnd_nonneg_cases [of "face * d"] assms(1) 2(2)
    consider "rnd (face * d) = PosInfinity"
      | a where "rnd (face * d) = Num a" "0 \<le> a" by auto
    then show ?thesis
    proof cases
      case 1
      with 2 assms(3,4) show ?thesis by (simp add: couponPaymentOf_def)
    next
      case a: 2
      from a 2 assms(3,4) have c: "rnd (a / of_int f) = Num c"
        by (simp add: couponPaymentOf_def)
      have "0 \<le> a / of_int f" using a(2) assms(3) by simp
      then show ?thesis using rnd_nonneg [OF _ c] rnd_is_double [OF c] by simp
    qed
  qed
qed


section \<open>Validation and the period count\<close>

lemma validateBondInput_empty:
  assumes "validateBondInput p i = []"
  shows "\<exists>face ratePct price years.
           faceValue i = Num face \<and> 0 < face \<and> annualCouponRatePct i = Num ratePct \<and> 0 \<le> ratePct
           \<and> marketPrice i = Num price \<and> 0 < price \<and> yearsToMaturity i = Num years \<and> 0 < years"
    and "couponFrequency i = ''annual'' \<or> couponFrequency i = ''semi-annual''"
    and "truthy (settlementDate i) \<Longrightarrow> parse p (the (settlementDate i)) \<noteq> None"
proof -
  from assms have a: "Number_isFinite (faceValue i) \<and> \<not> le_zero (faceValue i)"
    and b: "Number_isFinite (annualCouponRatePct i) \<and> \<not> lt_zero (annualCouponRatePct i)"
    and c: "Number_isFinite (marketPrice i) \<and> \<not> le_zero (marketPrice i)"
    and d: "Number_isFinite (yearsToMaturity i) \<and> \<not> le_zero (yearsToMaturity i)"
    and e: "couponFrequency i \<in> set [''annual'', ''semi-annual'']"
    and f: "\<not> (truthy (settlementDate i) \<and> parse p (the (settlementDate i)) = None)"
    unfolding validateBondInput_def by (simp_all split: if_splits)
  from a obtain face where "faceValue i = Num face" "0 < face"
    by (cases "faceValue i") auto
  moreover from b obtain ratePct where "annualCouponRatePct i = Num ratePct" "0 \<le> ratePct"
    by (cases "annualCouponRatePct i") auto
  moreover from c obtain price where "marketPrice i = Num price" "0 < price"
    by (cases "marketPrice i") auto
  moreover from d obtain years where "yearsToMaturity i = Num years" "0 < years"
    by (cases "yearsToMaturity i") auto
  ultimately show "\<exists>face ratePct price years.
           faceValue i = Num face \<and> 0 < face \<and> annualCouponRatePct i = Num ratePct \<and> 0 \<le> ratePct
           \<and> marketPrice i = Num price \<and> 0 < price \<and> yearsToMaturity i = Num years \<and> 0 < years"
    by blast
  from e show "couponFrequency i = ''annual'' \<or> couponFrequency i = ''semi-annual''" by simp
  from f show "truthy (settlementDate i) \<Longrightarrow> parse p (the (settlementDate i)) \<noteq> None" by simp
qed

lemma validateBondInput_messages:
  "set (validateBondInput p i) \<subseteq> set validationMessages"
  unfolding validateBondInput_def validationMessages_def by auto

text \<open>
  Claim C7.  A request that passes validation and whose period count
  \<open>round(yearsToMaturity \<times> frequency)\<close> is zero or less is rejected by
  \<^verbatim>\<open>calculateBondMetrics\<close> with the error "Total periods must be at least 1.": no result
  record is produced.  The validator itself reports nothing about the period count: on
  every request its messages are among the six of \<open>validationMessages\<close>.
\<close>

theorem degenerate_period_count:
  assumes "validateBondInput p i = []"
    and "yearsToMaturity i = Num years"
    and "Math_round (years * of_int (frequencyPerYearOf i)) \<le> 0"
  shows "calculateBondMetrics p i = Inl (Error ''Total periods must be at least 1.'')
         \<and> set (validateBondInput p j) \<subseteq> set validationMessages"
proof -
  from validateBondInput_empty(1) [OF assms(1)] assms(2) obtain face ratePct price where
    "faceValue i = Num face" "annualCouponRatePct i = Num ratePct" "marketPrice i = Num price"
    by auto
  with assms(2,3) have "calculateBondMetrics p i = Inl (Error ''Total periods must be at least 1.'')"
    unfolding calculateBondMetrics_def by (simp add: Let_def)
  with validateBondInput_messages show ?thesis by blast
qed

text \<open>
  The request \<open>short_dated\<close> passes validation, its period count is \<open>round(0.25) = 0\<close>, and
  it is rejected.
\<close>

theorem degenerate_period_count_witness:
  "validateBondInput examplePlatform short_dated = []
   \<and> yearsToMaturity short_dated = Num (1 / 4)
   \<and> Math_round (1 / 4 * of_int (frequencyPerYearOf short_dated)) \<le> 0
   \<and> calculateBondMetrics examplePlatform short_dated = Inl (Error ''Total periods must be at least 1.'')"
proof -
  have v: "validateBondInput examplePlatform short_dated = []" by code_simp
  have y: "yearsToMaturity short_dated = Num (1 / 4)" by (simp add: short_dated_def)
  have n: "Math_round (1 / 4 * of_int (frequencyPerYearOf short_dated)) \<le> 0"
    by (simp add: short_dated_def frequencyPerYearOf_def Math_round_def)
  from degenerate_period_count [OF v y n] v y n show ?thesis by blast
qed


section \<open>Evaluating the examples\<close>

lemma example_parse: "parse examplePlatform ''2026-02-23'' = Some 1771804800000"
  by code_simp

lemma example_settlement: "toISODate (Some 1771804800000) = Some ''2026-02-23''"
  by code_simp

lemma example_month_6: "toISODate (addMonthsClamped (Some 1771804800000) 6) = Some ''2026-08-23''"
  by code_simp

lemma example_month_12: "toISODate (addMonthsClamped (Some 1771804800000) 12) = Some ''2027-02-23''"
  by code_simp

lemma example_month_18: "toISODate (addMonthsClamped (Some 1771804800000) 18) = Some ''2027-08-23''"
  by code_simp

lemma example_month_24: "toISODate (addMonthsClamped (Some 1771804800000) 24) = Some ''2028-02-23''"
  by code_simp

lemma example_month_36: "toISODate (addMonthsClamped (Some 1771804800000) 36) = Some ''2029-02-23''"
  by code_simp

lemmas example_dates = example_parse example_settlement example_month_6 example_month_12
  example_month_18 example_month_24 example_month_36

text \<open>The numbers of the example requests are values of the format.\<close>

lemma example_numbers:
  "is_double 1000" "is_double 950" "is_double 200" "is_double 5" "is_double 3" "is_double 2"
  "is_double 1" "is_double 0" "is_double (1 / 4)" "is_double (7 / 8)" "is_double (35 / 8)"
  "is_double (25 / 64)" "is_double (1000 + 1 / 8)" "is_double (1000 - 11 / 2 ^ 40)"
  "is_double (1000 + 11 / 2 ^ 40)"
  by (simp_all add: is_double_def evaluate_rnd)

lemma one_annual_row:
  "schedule_loop (Some 1771804800000) 12 c f 1 0 (Num 0)
     = Inr [\<lparr>period = 1, paymentDate = ''2027-02-23'', rowCouponPayment = round2 c,
             cumulativeInterest = round2 (js_add (Num 0) c), remainingPrincipal = Num 0\<rparr>]"
  by (simp add: schedule_loop.simps [of _ _ _ _ 1] example_dates Let_def
      del: js_add.simps)

lemma two_annual_rows:
  "schedule_loop (Some 1771804800000) 12 c f 2 0 (Num 0)
     = Inr [\<lparr>period = 1, paymentDate = ''2027-02-23'', rowCouponPayment = round2 c,
             cumulativeInterest = round2 (js_add (Num 0) c), remainingPrincipal = round2 f\<rparr>,
            \<lparr>period = 2, paymentDate = ''2028-02-23'', rowCouponPayment = round2 c,
             cumulativeInterest = round2 (js_add (js_add (Num 0) c) c),
             remainingPrincipal = Num 0\<rparr>]"
  by (simp add: schedule_loop.simps [of _ _ _ _ 2] example_dates Let_def
      del: js_add.simps)

lemma three_annual_rows:
  "schedule_loop (Some 1771804800000) 12 c f 3 0 (Num 0)
     = Inr [\<lparr>period = 1, paymentDate = ''2027-02-23'', rowCouponPayment = round2 c,
             cumulativeInterest = round2 (js_add (Num 0) c), remainingPrincipal = round2 f\<rparr>,
            \<lparr>period = 2, paymentDate = ''2028-02-23'', rowCouponPayment = round2 c,
             cumulativeInterest = round2 (js_add (js_add (Num 0) c) c),
             remainingPrincipal = round2 f\<rparr>,
            \<lparr>period = 3, paymentDate = ''2029-02-23'', rowCouponPayment = round2 c,
             cumulativeInterest = round2 (js_add (js_add (js_add (Num 0) c) c) c),
             remainingPrincipal = Num 0\<rparr>]"
  by (simp add: schedule_loop.simps [of _ _ _ _ 3] example_dates Let_def
      del: js_add.simps)

lemma four_semiannual_rows:
  "schedule_loop (Some 1771804800000) 6 c f 4 0 (Num 0)
     = Inr [\<lparr>period = 1, paymentDate = ''2026-08-23'', rowCouponPayment = round2 c,
             cumulativeInterest = round2 (js_add (Num 0) c), remainingPrincipal = round2 f\<rparr>,
            \<lparr>period = 2, paymentDate = ''2027-02-23'', rowCouponPayment = round2 c,
             cumulativeInterest = round2 (js_add (js_add (Num 0) c) c),
             remainingPrincipal = round2 f\<rparr>,
            \<lparr>period = 3, paymentDate = ''2027-08-23'', rowCouponPayment = round2 c,
             cumulativeInterest = round2 (js_add (js_add (js_add (Num 0) c) c) c),
             remainingPrincipal = round2 f\<rparr>,
            \<lparr>period = 4, paymentDate = ''2028-02-23'', rowCouponPayment = round2 c,
             cumulativeInterest = round2 (js_add (js_add (js_add (js_add (Num 0) c) c) c) c),
             remainingPrincipal = Num 0\<rparr>]"
  by (simp add: schedule_loop.simps [of _ _ _ _ 4] example_dates Let_def
      del: js_add.simps)

lemma solvePeriodicYtm_first_guess:
  assumes "x = max (- 95 / 100) (crd / f)"
    and "\<bar>priceFromPeriodicYield x c fv n - p\<bar> < 1 / 10 ^ 10"
  shows "solvePeriodicYtm p c fv n f crd = x"
  using assms unfolding solvePeriodicYtm_def
  by (subst newton_loop.simps) (simp add: Let_def)

lemma par_bond_eval: "calculateBondMetrics examplePlatform par_bond = Inr par_bond_result"
proof -
  have r:
    "js_div (Num 5) (Num 100) = Num (3602879701896397 / 72057594037927936)"
    "js_mul (Num 1000) (Num (3602879701896397 / 72057594037927936)) = Num 50"
    "js_div (Num 50) (Num 1) = Num 50"
    "js_div (Num 50) (Num 1000) = Num (3602879701896397 / 72057594037927936)"
    "js_mul (Num (3602879701896397 / 72057594037927936)) (Num 100) = Num 5"
    "rnd (3602879701896397 / 72057594037927936) = Num (3602879701896397 / 72057594037927936)"
    "js_mul (Num (3602879701896397 / 72057594037927936)) (Num 1)
       = Num (3602879701896397 / 72057594037927936)"
    "round6 (Num 5) = Num 5"
    "js_add (Num 0) (Num 50) = Num 50"
    "round2 (Num 50) = Num 50"
    "js_add (Num 50) (Num 50) = Num 100"
    "round2 (Num 100) = Num 100"
    "round2 (Num 1000) = Num 1000"
    "js_sub (Num 1000) (Num 1000) = Num 0"
    "js_mul (Num 50) (Num 2) = Num 100"
    "round2 (Num 0) = Num 0"
    by (simp_all add: evaluate_rounding)
  have p: "\<bar>priceFromPeriodicYield
               (3602879701896397 / 72057594037927936) 50 1000 2 - 1000\<bar> < 1 / 10 ^ 10"
    unfolding priceFromPeriodicYield_def
    by (simp add: price_loop.simps [of _ _ 2] power2_eq_square)
  have s: "solvePeriodicYtm 1000 50 1000 2 1 (3602879701896397 / 72057594037927936)
             = 3602879701896397 / 72057594037927936"
    by (rule solvePeriodicYtm_first_guess [OF _ p]) simp
  have n: "Math_round 2 = 2" by (simp add: Math_round_def)
  show ?thesis
    unfolding calculateBondMetrics_def par_bond_result_def
    by (simp add: Let_def frequencyPerYearOf_def example_dates two_annual_rows r s n
          par_bond_def request_def annual_rows_def
          del: js_add.simps js_mul.simps js_div.simps)
qed

lemma tie_coupon_eval:
  "calculateBondMetrics examplePlatform tie_coupon = Inr tie_coupon_result"
proof -
  have r:
    "js_div (Num (35 / 8)) (Num 100) = Num (3152519739159347 / 72057594037927936)"
    "js_mul (Num 1000) (Num (3152519739159347 / 72057594037927936)) = Num (175 / 4)"
    "js_div (Num (175 / 4)) (Num 2) = Num (175 / 8)"
    "js_div (Num (175 / 4)) (Num 1000) = Num (3152519739159347 / 72057594037927936)"
    "js_mul (Num (3152519739159347 / 72057594037927936)) (Num 100) = Num (35 / 8)"
    "rnd (3152519739159347 / 144115188075855872) = Num (3152519739159347 / 144115188075855872)"
    "js_mul (Num (3152519739159347 / 144115188075855872)) (Num 2)
       = Num (3152519739159347 / 72057594037927936)"
    "round6 (Num (35 / 8)) = Num (35 / 8)"
    "js_add (Num 0) (Num (175 / 8)) = Num (175 / 8)"
    "round2 (Num (175 / 8)) = Num (6158672490429153 / 281474976710656)"
    "js_add (Num (175 / 8)) (Num (175 / 8)) = Num (175 / 4)"
    "round2 (Num (175 / 4)) = Num (175 / 4)"
    "js_add (Num (175 / 4)) (Num (175 / 8)) = Num (525 / 8)"
    "round2 (Num (525 / 8)) = Num (577287585047511 / 8796093022208)"
    "js_add (Num (525 / 8)) (Num (175 / 8)) = Num (175 / 2)"
    "round2 (Num (175 / 2)) = Num (175 / 2)"
    "round2 (Num 1000) = Num 1000"
    "js_sub (Num 1000) (Num 1000) = Num 0"
    "js_mul (Num (175 / 8)) (Num 4) = Num (175 / 2)"
    "round2 (Num 0) = Num 0"
    by (simp_all add: evaluate_rounding)
  have p: "\<bar>priceFromPeriodicYield (3152519739159347 / 144115188075855872)
               (175 / 8) 1000 4 - 1000\<bar> < 1 / 10 ^ 10"
    unfolding priceFromPeriodicYield_def
    by (simp add: price_loop.simps [of _ _ 4] power4_eq_xxxx power3_eq_cube power2_eq_square)
  have s: "solvePeriodicYtm 1000 (175 / 8) 1000 4 2 (3152519739159347 / 72057594037927936)
             = 3152519739159347 / 144115188075855872"
    by (rule solvePeriodicYtm_first_guess [OF _ p]) simp
  have d:
    "rnd (2188 / 100) = Num (6158672490429153 / 281474976710656)"
    "rnd (6563 / 100) = Num (577287585047511 / 8796093022208)"
    by (simp_all add: evaluate_rnd)
  have n: "Math_round 4 = 4" by (simp add: Math_round_def)
  show ?thesis
    unfolding calculateBondMetrics_def tie_coupon_result_def d
    by (simp add: Let_def frequencyPerYearOf_def example_dates four_semiannual_rows r s n
          tie_coupon_def request_def
          del: js_add.simps js_mul.simps js_div.simps)
qed

lemma small_coupon_eval:
  "calculateBondMetrics examplePlatform small_coupon = Inr small_coupon_result"
proof -
  have r:
    "js_div (Num (25 / 64)) (Num 100) = Num (1 / 256)"
    "js_mul (Num 1) (Num (1 / 256)) = Num (1 / 256)"
    "js_div (Num (1 / 256)) (Num 1) = Num (1 / 256)"
    "js_mul (Num (1 / 256)) (Num 100) = Num (25 / 64)"
    "rnd (1 / 256) = Num (1 / 256)"
    "js_mul (Num (1 / 256)) (Num 1) = Num (1 / 256)"
    "round6 (Num (25 / 64)) = Num (25 / 64)"
    "js_add (Num 0) (Num (1 / 256)) = Num (1 / 256)"
    "round2 (Num (1 / 256)) = Num 0"
    "js_add (Num (1 / 256)) (Num (1 / 256)) = Num (1 / 128)"
    "round2 (Num (1 / 128)) = Num (5764607523034235 / 576460752303423488)"
    "js_add (Num (1 / 128)) (Num (1 / 256)) = Num (3 / 256)"
    "round2 (Num (3 / 256)) = Num (5764607523034235 / 576460752303423488)"
    "round2 (Num 1) = Num 1"
    "js_sub (Num 1) (Num 1) = Num 0"
    "js_mul (Num (1 / 256)) (Num 3) = Num (3 / 256)"
    "round2 (Num 0) = Num 0"
    by (simp_all add: evaluate_rounding)
  have p: "\<bar>priceFromPeriodicYield (1 / 256) (1 / 256) 1 3 - 1\<bar> < 1 / 10 ^ 10"
    unfolding priceFromPeriodicYield_def
    by (simp add: price_loop.simps [of _ _ 3] power3_eq_cube power2_eq_square)
  have s: "solvePeriodicYtm 1 (1 / 256) 1 3 1 (1 / 256) = 1 / 256"
    by (rule solvePeriodicYtm_first_guess [OF _ p]) simp
  have d:
    "rnd (1 / 100) = Num (5764607523034235 / 576460752303423488)"
    by (simp_all add: evaluate_rnd)
  have n: "Math_round 3 = 3" by (simp add: Math_round_def)
  show ?thesis
    unfolding calculateBondMetrics_def small_coupon_result_def d
    by (simp add: Let_def frequencyPerYearOf_def example_dates three_annual_rows r s n
          small_coupon_def request_def
          del: js_add.simps js_mul.simps js_div.simps)
qed

lemma fractional_face_eval:
  "calculateBondMetrics examplePlatform fractional_face = Inr fractional_face_result"
proof -
  have r:
    "js_div (Num 0) (Num 100) = Num 0"
    "js_mul (Num (8001 / 8)) (Num 0) = Num 0"
    "js_div (Num 0) (Num 1) = Num 0"
    "js_div (Num 0) (Num (8001 / 8)) = Num 0"
    "js_mul (Num 0) (Num 100) = Num 0"
    "js_mul (Num 0) (Num 1) = Num 0"
    "round6 (Num 0) = Num 0"
    "js_add (Num 0) (Num 0) = Num 0"
    "round2 (Num 0) = Num 0"
    "round2 (Num (8001 / 8)) = Num (8797236514300887 / 8796093022208)"
    "js_sub (Num (8001 / 8)) (Num (8001 / 8)) = Num 0"
    "js_mul (Num 0) (Num 2) = Num 0"
    by (simp_all add: evaluate_rounding)
  have p: "priceFromPeriodicYield 0 0 (8001 / 8) 2 = 8001 / 8"
    unfolding priceFromPeriodicYield_def by simp
  have s: "solvePeriodicYtm (8001 / 8) 0 (8001 / 8) 2 1 0 = 0"
    by (rule solvePeriodicYtm_first_guess) (simp_all add: p)
  have d:
    "rnd (100013 / 100) = Num (8797236514300887 / 8796093022208)"
    by (simp_all add: evaluate_rnd)
  have n: "Math_round 2 = 2" by (simp add: Math_round_def)
  show ?thesis
    unfolding calculateBondMetrics_def fractional_face_result_def d
    by (simp add: Let_def frequencyPerYearOf_def example_dates two_annual_rows r s n
          fractional_face_def request_def annual_rows_def
          del: js_add.simps js_mul.simps js_div.simps)
qed

lemma eighth_discount_eval:
  "calculateBondMetrics examplePlatform eighth_discount = Inr eighth_discount_result"
proof -
  have r:
    "js_div (Num 0) (Num 100) = Num 0"
    "js_mul (Num 1) (Num 0) = Num 0"
    "js_div (Num 0) (Num 1) = Num 0"
    "js_div (Num 0) (Num (7 / 8)) = Num 0"
    "js_mul (Num 0) (Num 100) = Num 0"
    "js_add (Num 0) (Num 0) = Num 0"
    "round2 (Num 0) = Num 0"
    "js_sub (Num (7 / 8)) (Num 1) = Num (- (1 / 8))"
    "round6 (Num 0) = Num 0"
    "js_mul (Num 0) (Num 1) = Num 0"
    "round2 (Num (- (1 / 8))) = Num (- (1080863910568919 / 9007199254740992))"
    by (simp_all add: evaluate_rounding)
  have d:
    "rnd (- 12 / 100) = Num (- (1080863910568919 / 9007199254740992))"
    by (simp_all add: evaluate_rnd)
  have n: "Math_round 1 = 1" by (simp add: Math_round_def)
  show ?thesis
    unfolding calculateBondMetrics_def eighth_discount_result_def d
    by (simp add: Let_def frequencyPerYearOf_def example_dates one_annual_row r n
          eighth_discount_def request_def
          del: js_add.simps js_mul.simps js_div.simps)
qed

lemma near_par_eval: "calculateBondMetrics examplePlatform near_par = Inr near_par_result"
proof -
  have r:
    "js_div (Num 5) (Num 100) = Num (3602879701896397 / 72057594037927936)"
    "js_mul (Num 1000) (Num (3602879701896397 / 72057594037927936)) = Num 50"
    "js_div (Num 50) (Num 1) = Num 50"
    "js_div (Num 50) (Num (1099511627775989 / 1099511627776))
       = Num (3602879701896433 / 72057594037927936)"
    "js_mul (Num (3602879701896433 / 72057594037927936)) (Num 100)
       = Num (5629499534213177 / 1125899906842624)"
    "rnd (3602879701896397 / 72057594037927936) = Num (3602879701896397 / 72057594037927936)"
    "js_mul (Num (3602879701896397 / 72057594037927936)) (Num 1)
       = Num (3602879701896397 / 72057594037927936)"
    "js_mul (Num (3602879701896397 / 72057594037927936)) (Num 100) = Num 5"
    "round6 (Num 5) = Num 5"
    "js_add (Num 0) (Num 50) = Num 50"
    "round2 (Num 50) = Num 50"
    "js_sub (Num (1099511627775989 / 1099511627776)) (Num 1000) = Num (- (11 / 1099511627776))"
    "round6 (Num (5629499534213177 / 1125899906842624)) = Num 5"
    "js_mul (Num 50) (Num 1) = Num 50"
    "round2 (Num (- (11 / 1099511627776))) = Num 0"
    by (simp_all add: evaluate_rounding)
  have p: "\<bar>priceFromPeriodicYield (3602879701896397 / 72057594037927936) 50 1000 1 -
               (1099511627775989 / 1099511627776)\<bar> < 1 / 10 ^ 10"
    unfolding priceFromPeriodicYield_def
    by (simp add: price_loop.simps [of _ _ 1])
  have s: "solvePeriodicYtm (1099511627775989 / 1099511627776) 50 1000 1 1
                 (3602879701896397 / 72057594037927936)
             = 3602879701896397 / 72057594037927936"
    by (rule solvePeriodicYtm_first_guess [OF _ p]) simp
  have n: "Math_round 1 = 1" by (simp add: Math_round_def)
  show ?thesis
    unfolding calculateBondMetrics_def near_par_result_def
    by (simp add: Let_def frequencyPerYearOf_def example_dates one_annual_row r s n
          near_par_def request_def
          del: js_add.simps js_mul.simps js_div.simps)
qed


section \<open>Totals and rows\<close>

lemma frequencyPerYearOf_cases: "frequencyPerYearOf i = 1 \<or> frequencyPerYearOf i = 2"
  by (simp add: frequencyPerYearOf_def)

text \<open>
  Claim C3, as amended.  \<^verbatim>\<open>totalInterestEarned\<close> is \<^verbatim>\<open>round2\<close> of the product of the
  unrounded coupon payment \<open>faceValue \<times> (annualCouponRatePct / 100) / frequency\<close> and
  \<^verbatim>\<open>totalPeriods\<close>, and the returned \<^verbatim>\<open>couponPayment\<close> is \<^verbatim>\<open>round2\<close> of the same
  unrounded coupon payment: each of the two fields is rounded on its own, and the total
  is not computed from the returned coupon payment.
\<close>

theorem total_interest_rounded:
  assumes "calculateBondMetrics p i = Inr r"
    and "faceValue i = Num face" and "annualCouponRatePct i = Num ratePct"
  shows "totalInterestEarned r
           = round2 (js_mul (couponPaymentOf face ratePct (frequencyPerYearOf i))
                       (Num (of_int (totalPeriods r))))
         \<and> couponPayment r = round2 (couponPaymentOf face ratePct (frequencyPerYearOf i))"
proof -
  from calculateBondMetrics_numeric [OF assms(1)] obtain price years where
    n: "marketPrice i = Num price" "yearsToMaturity i = Num years" by blast
  note f = calculateBondMetrics_fields [OF assms n]
  from f(4,7) show ?thesis by blast
qed

text \<open>The par bond: an unrounded coupon payment of 50, two periods, 100 of interest.\<close>

theorem total_interest_rounded_witness:
  "calculateBondMetrics examplePlatform par_bond = Inr par_bond_result
   \<and> faceValue par_bond = Num 1000 \<and> annualCouponRatePct par_bond = Num 5
   \<and> couponPaymentOf 1000 5 (frequencyPerYearOf par_bond) = Num 50
   \<and> totalInterestEarned par_bond_result
        = round2 (js_mul (Num 50) (Num (of_int (totalPeriods par_bond_result))))
   \<and> totalInterestEarned par_bond_result = Num 100
   \<and> couponPayment par_bond_result = Num 50"
proof -
  have a: "faceValue par_bond = Num 1000" and b: "annualCouponRatePct par_bond = Num 5"
    by (simp_all add: par_bond_def request_def)
  have c: "couponPaymentOf 1000 5 (frequencyPerYearOf par_bond) = Num 50"
    by (simp add: couponPaymentOf_def par_bond_def request_def frequencyPerYearOf_def
          evaluate_rnd)
  from total_interest_rounded [OF par_bond_eval a b]
  have "totalInterestEarned par_bond_result
          = round2 (js_mul (couponPaymentOf 1000 5 (frequencyPerYearOf par_bond))
                      (Num (of_int (totalPeriods par_bond_result))))"
    by blast
  then have "totalInterestEarned par_bond_result
          = round2 (js_mul (Num 50) (Num (of_int (totalPeriods par_bond_result))))"
    by (simp only: c)
  moreover have "totalInterestEarned par_bond_result = Num 100"
    "couponPayment par_bond_result = Num 50"
    by (simp_all add: par_bond_result_def)
  ultimately show ?thesis using par_bond_eval a b c by blast
qed

text \<open>
  Claim C3 as stated fails for \<open>tie_coupon\<close>: the coupon payment 21.875 is returned as
  21.88, the total 4 \<times> 21.875 as 87.5, and 4 \<times> 21.88 is 87.52.
\<close>

theorem total_interest_counterexample:
  "validateBondInput examplePlatform tie_coupon = []
   \<and> calculateBondMetrics examplePlatform tie_coupon = Inr tie_coupon_result
   \<and> couponPayment tie_coupon_result = rnd (2188 / 100)
   \<and> totalPeriods tie_coupon_result = 4
   \<and> totalInterestEarned tie_coupon_result = Num (875 / 10)
   \<and> js_mul (couponPayment tie_coupon_result) (Num (of_int (totalPeriods tie_coupon_result)))
        = rnd (8752 / 100)
   \<and> totalInterestEarned tie_coupon_result
        \<noteq> js_mul (couponPayment tie_coupon_result)
             (Num (of_int (totalPeriods tie_coupon_result)))"
proof -
  have "validateBondInput examplePlatform tie_coupon = []"
    by (simp add: validateBondInput_def tie_coupon_def request_def example_dates)
  moreover have "couponPayment tie_coupon_result = rnd (2188 / 100)"
    "totalPeriods tie_coupon_result = 4" "totalInterestEarned tie_coupon_result = Num (875 / 10)"
    by (simp_all add: tie_coupon_result_def)
  moreover have "js_mul (rnd (2188 / 100)) (Num 4) = rnd (8752 / 100)"
    "Num (875 / 10) \<noteq> rnd (8752 / 100)"
    by (simp_all add: evaluate_rnd)
  ultimately show ?thesis using tie_coupon_eval by simp
qed

lemma calculateBondMetrics_coupon:
  assumes "validateBondInput p i = []"
    and "calculateBondMetrics p i = Inr r"
    and "faceValue i = Num face" and "annualCouponRatePct i = Num ratePct"
  shows "\<exists>c. couponPaymentOf face ratePct (frequencyPerYearOf i) = Num c \<and> 0 \<le> c"
proof -
  from calculateBondMetrics_numeric [OF assms(2)] obtain price years where
    n: "marketPrice i = Num price" "yearsToMaturity i = Num years" by blast
  from calculateBondMetrics_fields(6) [OF assms(2,3,4) n] obtain c where
    c: "couponPaymentOf face ratePct (frequencyPerYearOf i) = Num c" by blast
  from validateBondInput_empty(1) [OF assms(1)] assms(3,4) have "0 < face" "0 \<le> ratePct" by auto
  moreover from frequencyPerYearOf_cases [of i] have "0 < frequencyPerYearOf i" by auto
  ultimately have "0 \<le> c" using couponPaymentOf_nonneg [OF _ _ _ c] by blast
  with c show ?thesis by blast
qed

text \<open>
  Claim C4, as amended.  For a request that passes validation, the row for period \<open>t\<close> of
  the returned schedule has \<^verbatim>\<open>cumulativeInterest\<close> equal to \<^verbatim>\<open>round2\<close> of the sum of \<open>t\<close>
  unrounded coupon payments, added one after the other; the values never decrease with
  the period.
\<close>

theorem cumulative_interest_rows:
  assumes "validateBondInput p i = []"
    and "calculateBondMetrics p i = Inr r"
    and "faceValue i = Num face" and "annualCouponRatePct i = Num ratePct"
  shows "(\<forall>j < length (cashFlowSchedule r).
            period (cashFlowSchedule r ! j) = int j + 1
            \<and> cumulativeInterest (cashFlowSchedule r ! j)
                = round2 (interest_after (Num 0)
                            (couponPaymentOf face ratePct (frequencyPerYearOf i)) (Suc j)))
         \<and> (\<forall>j k. j < k \<and> k < length (cashFlowSchedule r) \<longrightarrow>
               js_le (cumulativeInterest (cashFlowSchedule r ! j))
                 (cumulativeInterest (cashFlowSchedule r ! k)))"
proof -
  let ?c = "couponPaymentOf face ratePct (frequencyPerYearOf i)"
  let ?rows = "cashFlowSchedule r"
  note rows = calculateBondMetrics_rows [OF assms(2,3,4)]
  from calculateBondMetrics_coupon [OF assms] obtain c where c: "?c = Num c" "0 \<le> c" by blast
  have cum: "cumulativeInterest (?rows ! j) = round2 (interest_after (Num 0) ?c (Suc j))"
    if "j < length ?rows" for j using rows(4) [OF that] .
  have mono: "js_le (cumulativeInterest (?rows ! j)) (cumulativeInterest (?rows ! k))"
    if "j < k" "k < length ?rows" for j k
  proof -
    from that have "Suc j \<le> Suc k" "j < length ?rows" by simp_all
    then show ?thesis
      using interest_after_mono [OF c(2), of "Suc j" "Suc k"] that(2)
      by (simp only: cum c(1) round2_mono)
  qed
  from rows(2) cum mono show ?thesis by blast
qed

text \<open>The par bond: 50 after the first period, 100 after the second.\<close>

theorem cumulative_interest_rows_witness:
  "validateBondInput examplePlatform par_bond = []
   \<and> calculateBondMetrics examplePlatform par_bond = Inr par_bond_result
   \<and> faceValue par_bond = Num 1000 \<and> annualCouponRatePct par_bond = Num 5
   \<and> (0 :: nat) < 1 \<and> 1 < length (cashFlowSchedule par_bond_result)
   \<and> js_le (cumulativeInterest (cashFlowSchedule par_bond_result ! 0))
        (cumulativeInterest (cashFlowSchedule par_bond_result ! 1))
   \<and> cumulativeInterest (cashFlowSchedule par_bond_result ! 0) = Num 50
   \<and> cumulativeInterest (cashFlowSchedule par_bond_result ! 1) = Num 100"
proof -
  have v: "validateBondInput examplePlatform par_bond = []"
    by (simp add: validateBondInput_def par_bond_def request_def example_dates)
  have a: "faceValue par_bond = Num 1000" and b: "annualCouponRatePct par_bond = Num 5"
    by (simp_all add: par_bond_def request_def)
  have l: "(0 :: nat) < 1 \<and> 1 < length (cashFlowSchedule par_bond_result)"
    by (simp add: par_bond_result_def annual_rows_def)
  from cumulative_interest_rows [OF v par_bond_eval a b] l
  have "js_le (cumulativeInterest (cashFlowSchedule par_bond_result ! 0))
          (cumulativeInterest (cashFlowSchedule par_bond_result ! 1))"
    by blast
  moreover have "cumulativeInterest (cashFlowSchedule par_bond_result ! 0) = Num 50"
    "cumulativeInterest (cashFlowSchedule par_bond_result ! 1) = Num 100"
    by (simp_all add: par_bond_result_def annual_rows_def)
  ultimately show ?thesis using v par_bond_eval a b l by blast
qed

text \<open>
  Claim C4 as stated fails for \<open>small_coupon\<close>, whose coupon payment is 1/256 =
  0.00390625 and is returned as 0: the cumulative interest is 0, 0.01 and 0.01 in its
  three rows.  The second and third are equal, and 0.01 in the second row is neither
  twice the returned coupon payment, 0, nor twice the unrounded one, 0.0078125.
\<close>

theorem cumulative_interest_counterexample:
  "validateBondInput examplePlatform small_coupon = []
   \<and> calculateBondMetrics examplePlatform small_coupon = Inr small_coupon_result
   \<and> length (cashFlowSchedule small_coupon_result) = 3
   \<and> period (cashFlowSchedule small_coupon_result ! 1) = 2
   \<and> period (cashFlowSchedule small_coupon_result ! 2) = 3
   \<and> cumulativeInterest (cashFlowSchedule small_coupon_result ! 1) = rnd (1 / 100)
   \<and> cumulativeInterest (cashFlowSchedule small_coupon_result ! 2) = rnd (1 / 100)
   \<and> \<not> js_lt (cumulativeInterest (cashFlowSchedule small_coupon_result ! 1))
         (cumulativeInterest (cashFlowSchedule small_coupon_result ! 2))
   \<and> couponPayment small_coupon_result = Num 0
   \<and> js_mul (couponPayment small_coupon_result) (Num 2) = Num 0
   \<and> cumulativeInterest (cashFlowSchedule small_coupon_result ! 1)
        \<noteq> js_mul (couponPayment small_coupon_result) (Num 2)
   \<and> couponPaymentOf 1 (25 / 64) 1 = Num (1 / 256)
   \<and> js_mul (Num (1 / 256)) (Num 2) = Num (1 / 128)
   \<and> cumulativeInterest (cashFlowSchedule small_coupon_result ! 1)
        \<noteq> js_mul (Num (1 / 256)) (Num 2)"
proof -
  have v: "validateBondInput examplePlatform small_coupon = []"
    by (simp add: validateBondInput_def small_coupon_def request_def example_dates)
  have d: "rnd (1 / 100) = Num (5764607523034235 / 576460752303423488)"
    by (simp add: evaluate_rnd)
  have m: "js_mul (Num 0) (Num 2) = Num 0" "js_mul (Num (1 / 256)) (Num 2) = Num (1 / 128)"
    "couponPaymentOf 1 (25 / 64) 1 = Num (1 / 256)"
    by (simp_all add: couponPaymentOf_def evaluate_rnd)
  have r: "length (cashFlowSchedule small_coupon_result) = 3"
    "period (cashFlowSchedule small_coupon_result ! 1) = 2"
    "period (cashFlowSchedule small_coupon_result ! 2) = 3"
    "cumulativeInterest (cashFlowSchedule small_coupon_result ! 1) = rnd (1 / 100)"
    "cumulativeInterest (cashFlowSchedule small_coupon_result ! 2) = rnd (1 / 100)"
    "couponPayment small_coupon_result = Num 0"
    by (simp_all add: small_coupon_result_def)
  show ?thesis unfolding r m d using v small_coupon_eval by simp
qed

text \<open>
  Claim C5, as amended.  A returned schedule has \<open>round(yearsToMaturity \<times> frequency)\<close>
  rows, which is at least 1; every row carries the same coupon payment, \<^verbatim>\<open>round2\<close> of
  \<open>faceValue \<times> (annualCouponRatePct / 100) / frequency\<close>, which is the \<^verbatim>\<open>couponPayment\<close>
  of the result; the remaining principal is \<^verbatim>\<open>round2\<close> of the face value, the face
  value rounded to two decimals, in every row but the last, where it is 0.
\<close>

theorem schedule_shape:
  assumes "calculateBondMetrics p i = Inr r"
    and "faceValue i = Num face" and "annualCouponRatePct i = Num ratePct"
    and "yearsToMaturity i = Num years"
  shows "1 \<le> Math_round (years * of_int (frequencyPerYearOf i))
         \<and> length (cashFlowSchedule r) = nat (Math_round (years * of_int (frequencyPerYearOf i)))
         \<and> (\<forall>j < length (cashFlowSchedule r).
               rowCouponPayment (cashFlowSchedule r ! j)
                 = round2 (couponPaymentOf face ratePct (frequencyPerYearOf i))
               \<and> rowCouponPayment (cashFlowSchedule r ! j) = couponPayment r
               \<and> remainingPrincipal (cashFlowSchedule r ! j)
                   = (if j + 1 = length (cashFlowSchedule r) then Num 0
                      else round2 (Num face)))"
proof -
  from calculateBondMetrics_numeric [OF assms(1)] obtain price where
    n: "marketPrice i = Num price" by blast
  note f = calculateBondMetrics_fields [OF assms(1,2,3) n assms(4)]
  note rows = calculateBondMetrics_rows [OF assms(1,2,3)]
  from f(1,2) have "1 \<le> Math_round (years * of_int (frequencyPerYearOf i))" by simp
  moreover from schedule_loop_length [OF f(10)] f(1)
  have "length (cashFlowSchedule r) = nat (Math_round (years * of_int (frequencyPerYearOf i)))"
    by simp
  moreover have "rowCouponPayment (cashFlowSchedule r ! j) = couponPayment r"
    if "j < length (cashFlowSchedule r)" for j
    using rows(3) [OF that] f(4) by simp
  ultimately show ?thesis using rows(3,5) by blast
qed

text \<open>The par bond: two rows, a coupon of 50 in each, 1000 outstanding after the first.\<close>

theorem schedule_shape_witness:
  "calculateBondMetrics examplePlatform par_bond = Inr par_bond_result
   \<and> faceValue par_bond = Num 1000 \<and> annualCouponRatePct par_bond = Num 5
   \<and> yearsToMaturity par_bond = Num 2
   \<and> length (cashFlowSchedule par_bond_result) = 2
   \<and> (0 :: nat) < length (cashFlowSchedule par_bond_result)
   \<and> remainingPrincipal (cashFlowSchedule par_bond_result ! 0) = round2 (Num 1000)
   \<and> remainingPrincipal (cashFlowSchedule par_bond_result ! 0) = Num 1000
   \<and> rowCouponPayment (cashFlowSchedule par_bond_result ! 0) = Num 50
   \<and> rowCouponPayment (cashFlowSchedule par_bond_result ! 0) = couponPayment par_bond_result"
proof -
  have a: "faceValue par_bond = Num 1000" and b: "annualCouponRatePct par_bond = Num 5"
    and c: "yearsToMaturity par_bond = Num 2"
    by (simp_all add: par_bond_def request_def)
  have l: "length (cashFlowSchedule par_bond_result) = 2"
    by (simp add: par_bond_result_def annual_rows_def)
  have z: "(0 :: nat) < length (cashFlowSchedule par_bond_result)" by (simp add: l)
  from schedule_shape [OF par_bond_eval a b c]
  have "\<forall>j < length (cashFlowSchedule par_bond_result).
          rowCouponPayment (cashFlowSchedule par_bond_result ! j) = couponPayment par_bond_result
          \<and> remainingPrincipal (cashFlowSchedule par_bond_result ! j)
              = (if j + 1 = length (cashFlowSchedule par_bond_result) then Num 0
                 else round2 (Num 1000))"
    by blast
  with z l
  have "remainingPrincipal (cashFlowSchedule par_bond_result ! 0) = round2 (Num 1000)"
    and "rowCouponPayment (cashFlowSchedule par_bond_result ! 0) = couponPayment par_bond_result"
    by auto
  moreover have "remainingPrincipal (cashFlowSchedule par_bond_result ! 0) = Num 1000"
    "rowCouponPayment (cashFlowSchedule par_bond_result ! 0) = Num 50"
    by (simp_all add: par_bond_result_def annual_rows_def)
  ultimately show ?thesis using par_bond_eval a b c l by simp
qed

text \<open>
  Claim C5 as stated fails for a face value of 1000.125: the first row shows 1000.13.
\<close>

theorem remaining_principal_counterexample:
  "validateBondInput examplePlatform fractional_face = []
   \<and> calculateBondMetrics examplePlatform fractional_face = Inr fractional_face_result
   \<and> faceValue fractional_face = Num (1000 + 1 / 8)
   \<and> length (cashFlowSchedule fractional_face_result) = 2
   \<and> remainingPrincipal (cashFlowSchedule fractional_face_result ! 0) = rnd (100013 / 100)
   \<and> remainingPrincipal (cashFlowSchedule fractional_face_result ! 0) \<noteq> Num (1000 + 1 / 8)"
proof -
  have "validateBondInput examplePlatform fractional_face = []"
    by (simp add: validateBondInput_def fractional_face_def request_def example_dates)
  moreover have "faceValue fractional_face = Num (1000 + 1 / 8)"
    by (simp add: fractional_face_def request_def)
  moreover have "length (cashFlowSchedule fractional_face_result) = 2"
    "remainingPrincipal (cashFlowSchedule fractional_face_result ! 0) = rnd (100013 / 100)"
    by (simp_all add: fractional_face_result_def annual_rows_def)
  moreover have "rnd (100013 / 100) \<noteq> Num (1000 + 1 / 8)"
    by (simp add: evaluate_rnd)
  ultimately show ?thesis using fractional_face_eval by simp
qed


section \<open>Trading status and yields\<close>

text \<open>
  Claim C2, as amended.  In a returned result the trading status is "discount" when the
  market price is below the face value, "premium" when it is above, and "par" with a
  premium/discount amount of 0 when the two are equal.  (No order between \<^verbatim>\<open>ytmPct\<close>
  and \<^verbatim>\<open>currentYieldPct\<close> is part of the statement.)  The two numbers are values of the
  format; their difference, once rounded, has the sign of the exact difference.
\<close>

theorem trading_status:
  assumes "calculateBondMetrics p i = Inr r"
    and "faceValue i = Num face" and "marketPrice i = Num price"
    and "is_double face" and "is_double price"
  shows "(price < face \<longrightarrow> tradingStatus r = ''discount'')
         \<and> (price > face \<longrightarrow> tradingStatus r = ''premium'')
         \<and> (price = face \<longrightarrow> tradingStatus r = ''par'' \<and> premiumDiscountAmount r = Num 0)"
proof -
  from calculateBondMetrics_numeric [OF assms(1)] obtain ratePct years where
    n: "annualCouponRatePct i = Num ratePct" "yearsToMaturity i = Num years" by blast
  note f = calculateBondMetrics_fields [OF assms(1,2) n(1) assms(3) n(2)]
  have "round2 (Num 0) = Num 0" by (simp add: evaluate_rounding)
  moreover have "js_sub (Num price) (Num face) = Num 0" if "price = face"
    using that by (simp add: js_sub_Num)
  ultimately have par: "tradingStatus r = ''par'' \<and> premiumDiscountAmount r = Num 0"
    if "price = face" using that f(8,9) by simp
  have discount: "tradingStatus r = ''discount''" if "price < face"
    using js_sub_less [OF assms(5,4) that] f(8) by simp
  have premium: "tradingStatus r = ''premium''" if "price > face"
    using js_sub_greater [OF assms(5,4) that] f(8) by simp
  from par discount premium show ?thesis by blast
qed

text \<open>The bond \<open>near_par\<close> is priced below its face value and is classified as a discount.\<close>

theorem trading_status_witness:
  "calculateBondMetrics examplePlatform near_par = Inr near_par_result
   \<and> faceValue near_par = Num 1000 \<and> marketPrice near_par = Num (1000 - 11 / 2 ^ 40)
   \<and> is_double 1000 \<and> is_double (1000 - 11 / 2 ^ 40)
   \<and> (1000 - 11 / 2 ^ 40 :: real) < 1000
   \<and> tradingStatus near_par_result = ''discount''"
proof -
  have a: "faceValue near_par = Num 1000"
    and b: "marketPrice near_par = Num (1000 - 11 / 2 ^ 40)"
    by (simp_all add: near_par_def request_def)
  have d: "is_double 1000" "is_double (1000 - 11 / 2 ^ 40)"
    by (simp_all add: is_double_def evaluate_rnd)
  have c: "(1000 - 11 / 2 ^ 40 :: real) < 1000" by simp
  from trading_status [OF near_par_eval a b d] c
  have "tradingStatus near_par_result = ''discount''" by blast
  with near_par_eval a b c d show ?thesis by blast
qed

text \<open>
  Claim C2 as stated fails for \<open>near_par\<close>, offered at 999.99999999999: the price
  residual at the solver's first guess, the coupon rate, is about \<open>10\<^sup>-\<^sup>1\<^sup>1\<close>, below the
  tolerance \<open>10\<^sup>-\<^sup>1\<^sup>0\<close>, so the guess is returned; \<^verbatim>\<open>ytmPct\<close> and \<^verbatim>\<open>currentYieldPct\<close>
  are both 5 for this discount bond.
\<close>

theorem yield_ordering_counterexample:
  "validateBondInput examplePlatform near_par = []
   \<and> calculateBondMetrics examplePlatform near_par = Inr near_par_result
   \<and> marketPrice near_par = Num (1000 - 11 / 2 ^ 40) \<and> faceValue near_par = Num 1000
   \<and> rnd (1000 - 1 / 10 ^ 11) = Num (1000 - 11 / 2 ^ 40)
   \<and> (1000 - 11 / 2 ^ 40 :: real) < 1000
   \<and> tradingStatus near_par_result = ''discount''
   \<and> ytmPct near_par_result = Num 5 \<and> currentYieldPct near_par_result = Num 5
   \<and> \<not> js_lt (currentYieldPct near_par_result) (ytmPct near_par_result)"
proof -
  have "validateBondInput examplePlatform near_par = []"
    by (simp add: validateBondInput_def near_par_def request_def example_dates)
  moreover have "marketPrice near_par = Num (1000 - 11 / 2 ^ 40)" "faceValue near_par = Num 1000"
    by (simp_all add: near_par_def request_def)
  moreover have "rnd (1000 - 1 / 10 ^ 11) = Num (1000 - 11 / 2 ^ 40)"
    by (simp add: evaluate_rnd)
  moreover have "tradingStatus near_par_result = ''discount''"
    "ytmPct near_par_result = Num 5" "currentYieldPct near_par_result = Num 5"
    by (simp_all add: near_par_result_def)
  ultimately show ?thesis using near_par_eval by simp
qed


section \<open>The properties of the result\<close>

text \<open>
  Claim C1.  The documentation of the repository and its front end expect a property
  \<^verbatim>\<open>effectiveAnnualYieldPct\<close> in the result.  The result that \<^verbatim>\<open>calculateBondMetrics\<close>
  returns for the par bond has the ten properties below and no such property.
\<close>

theorem result_properties_par_bond:
  "calculateBondMetrics examplePlatform par_bond = Inr par_bond_result
   \<and> map fst (properties par_bond_result)
       = [''inputs'', ''annualCouponAmount'', ''couponPayment'', ''totalPeriods'',
          ''currentYieldPct'', ''ytmPct'', ''totalInterestEarned'', ''tradingStatus'',
          ''premiumDiscountAmount'', ''cashFlowSchedule'']
   \<and> map_of (properties par_bond_result) ''ytmPct'' = Some (VNumber (Num 5))
   \<and> map_of (properties par_bond_result) ''effectiveAnnualYieldPct'' = None"
  using par_bond_eval by (simp add: properties_def par_bond_result_def)


section \<open>Rounding of the outputs\<close>

text \<open>
  Claim C6, as amended.  Every monetary field of a returned result (annual coupon
  amount, coupon payment, total interest, premium/discount amount, and the three
  monetary columns of each row) is \<^verbatim>\<open>round2\<close> of the unrounded quantity, the last
  remaining principal being the constant 0; both yield percentages are \<^verbatim>\<open>round6\<close> of
  the unrounded quantity.  \<^verbatim>\<open>round2(v)\<close> is \<^verbatim>\<open>Math.round((v + Number.EPSILON) * 100) /
  100\<close> in the arithmetic of the format: a finite result is the number nearest to \<open>k / 100\<close>
  for a whole \<open>k\<close>, the number that a decimal with two places denotes, and \<^verbatim>\<open>round6\<close>
  likewise with six places.  \<^verbatim>\<open>Math.round\<close> takes the nearest integer and, of two that
  are equally near, the larger one, whatever the sign: a value half-way between two
  cents goes up, towards zero when it is negative.
\<close>

theorem output_rounding:
  assumes "calculateBondMetrics p i = Inr r"
    and "faceValue i = Num face" and "annualCouponRatePct i = Num ratePct"
    and "marketPrice i = Num price"
  shows "annualCouponAmount r = round2 (js_mul (Num face) (js_div (Num ratePct) (Num 100)))
         \<and> couponPayment r = round2 (couponPaymentOf face ratePct (frequencyPerYearOf i))
         \<and> totalInterestEarned r
             = round2 (js_mul (couponPaymentOf face ratePct (frequencyPerYearOf i))
                         (Num (of_int (totalPeriods r))))
         \<and> premiumDiscountAmount r = round2 (js_sub (Num price) (Num face))
         \<and> (\<forall>j < length (cashFlowSchedule r).
               rowCouponPayment (cashFlowSchedule r ! j)
                 = round2 (couponPaymentOf face ratePct (frequencyPerYearOf i))
               \<and> cumulativeInterest (cashFlowSchedule r ! j)
                   = round2 (interest_after (Num 0)
                               (couponPaymentOf face ratePct (frequencyPerYearOf i)) (Suc j))
               \<and> remainingPrincipal (cashFlowSchedule r ! j) \<in> {Num 0, round2 (Num face)})
         \<and> currentYieldPct r
             = round6 (js_mul
                 (js_div (js_mul (Num face) (js_div (Num ratePct) (Num 100))) (Num price))
                 (Num 100))
         \<and> (\<exists>periodicYtm.
               ytmPct r
                 = round6 (js_mul (js_mul periodicYtm (Num (of_int (frequencyPerYearOf i))))
                             (Num 100)))
         \<and> (\<forall>v x. round2 v = Num x \<longrightarrow> (\<exists>k. rnd (of_int k / 100) = Num x))
         \<and> (\<forall>v x. round6 v = Num x \<longrightarrow> (\<exists>k. rnd (of_int k / 1000000) = Num x))
         \<and> (\<forall>x. of_int (Math_round x) - 1 / 2 \<le> x \<and> x < of_int (Math_round x) + 1 / 2)
         \<and> (\<forall>k. Math_round (of_int k + 1 / 2) = k + 1)"
proof -
  from calculateBondMetrics_numeric [OF assms(1)] obtain years where
    n: "yearsToMaturity i = Num years" by blast
  note f = calculateBondMetrics_fields [OF assms n]
  note rows = calculateBondMetrics_rows [OF assms(1,2,3)]
  have "remainingPrincipal (cashFlowSchedule r ! j) \<in> {Num 0, round2 (Num face)}"
    if "j < length (cashFlowSchedule r)" for j
    using rows(5) [OF that] by simp
  moreover from f(6) have "\<exists>periodicYtm.
      ytmPct r = round6 (js_mul (js_mul periodicYtm (Num (of_int (frequencyPerYearOf i))))
                           (Num 100))"
    by blast
  ultimately show ?thesis
    using f(3,4,5,7,9) rows(3,4) round2_grid round6_grid Math_round_bounds Math_round_half
    by (intro conjI allI impI) blast+
qed

text \<open>
  The bond \<open>eighth_discount\<close>: its premium/discount amount is \<^verbatim>\<open>round2(-0.125)\<close>, the
  number that -0.12 denotes; in \<^verbatim>\<open>round2\<close>, \<^verbatim>\<open>Math.round\<close> takes \<open>-12.5 + 2\<^sup>-\<^sup>4\<^sup>5\<close> to
  \<open>-12\<close>, as it would take \<open>-12.5\<close>.
\<close>

theorem output_rounding_witness:
  "calculateBondMetrics examplePlatform eighth_discount = Inr eighth_discount_result
   \<and> faceValue eighth_discount = Num 1 \<and> annualCouponRatePct eighth_discount = Num 0
   \<and> marketPrice eighth_discount = Num (7 / 8)
   \<and> premiumDiscountAmount eighth_discount_result = round2 (js_sub (Num (7 / 8)) (Num 1))
   \<and> round2 (js_sub (Num (7 / 8)) (Num 1)) = Num (- (1080863910568919 / 2 ^ 53))
   \<and> (\<exists>k. rnd (of_int k / 100) = Num (- (1080863910568919 / 2 ^ 53)))
   \<and> rnd (of_int (- 12) / 100) = Num (- (1080863910568919 / 2 ^ 53))
   \<and> (0 :: nat) < length (cashFlowSchedule eighth_discount_result)
   \<and> remainingPrincipal (cashFlowSchedule eighth_discount_result ! 0) \<in> {Num 0, round2 (Num 1)}
   \<and> Math_round (of_int (- 13) + 1 / 2) = - 13 + 1"
proof -
  have a: "faceValue eighth_discount = Num 1" and b: "annualCouponRatePct eighth_discount = Num 0"
    and c: "marketPrice eighth_discount = Num (7 / 8)"
    by (simp_all add: eighth_discount_def request_def)
  have e: "round2 (js_sub (Num (7 / 8)) (Num 1)) = Num (- (1080863910568919 / 2 ^ 53))"
    "rnd (of_int (- 12) / 100) = Num (- (1080863910568919 / 2 ^ 53))"
    by (simp_all add: evaluate_rounding)
  have l: "(0 :: nat) < length (cashFlowSchedule eighth_discount_result)"
    by (simp add: eighth_discount_result_def)
  note t = output_rounding [OF eighth_discount_eval a b c]
  from t have "premiumDiscountAmount eighth_discount_result = round2 (js_sub (Num (7 / 8)) (Num 1))"
    and "Math_round (of_int (- 13) + 1 / 2) = - 13 + 1"
    by blast+
  moreover from t e(1) have "\<exists>k. rnd (of_int k / 100) = Num (- (1080863910568919 / 2 ^ 53))"
    by blast
  moreover from t l
  have "remainingPrincipal (cashFlowSchedule eighth_discount_result ! 0) \<in> {Num 0, round2 (Num 1)}"
    by blast
  ultimately show ?thesis using eighth_discount_eval a b c e l by blast
qed

text \<open>
  Claim C6 as stated fails for \<open>eighth_discount\<close>: the negative half-value \<open>-0.125\<close> is
  returned as \<open>-0.12\<close>, towards zero, and not as \<open>-0.13\<close>.
\<close>

theorem negative_half_counterexample:
  "validateBondInput examplePlatform eighth_discount = []
   \<and> calculateBondMetrics examplePlatform eighth_discount = Inr eighth_discount_result
   \<and> marketPrice eighth_discount = Num (7 / 8) \<and> faceValue eighth_discount = Num 1
   \<and> js_sub (Num (7 / 8)) (Num 1) = Num (- (125 / 1000))
   \<and> premiumDiscountAmount eighth_discount_result = rnd (- 12 / 100)
   \<and> round2 (Num (- (125 / 1000))) = rnd (- 12 / 100)
   \<and> round2 (Num (- (125 / 1000))) \<noteq> rnd (- 13 / 100)"
proof -
  have "validateBondInput examplePlatform eighth_discount = []"
    by (simp add: validateBondInput_def eighth_discount_def request_def example_dates)
  moreover have "marketPrice eighth_discount = Num (7 / 8)" "faceValue eighth_discount = Num 1"
    by (simp_all add: eighth_discount_def request_def)
  moreover have "premiumDiscountAmount eighth_discount_result = rnd (- 12 / 100)"
    by (simp add: eighth_discount_result_def)
  moreover have "js_sub (Num (7 / 8)) (Num 1) = Num (- (125 / 1000))"
    "round2 (Num (- (125 / 1000))) = rnd (- 12 / 100)"
    "round2 (Num (- (125 / 1000))) \<noteq> rnd (- 13 / 100)"
    by (simp_all add: evaluate_rounding)
  ultimately show ?thesis using eighth_discount_eval by blast
qed


section \<open>The range of the solver\<close>


lemma expand_loop_bound:
  "expand_loop p c fv n fLow high fHigh k = (h, fh) \<Longrightarrow> 0 \<le> high \<Longrightarrow> high \<le> h"
proof (induction p c fv n fLow high fHigh k rule: expand_loop.induct)
  case (1 p c fv n fLow high fHigh k)
  show ?case
  proof (cases "fLow * fHigh > 0 \<and> k < 20")
    case True
    with "1.prems"(1)
    have "expand_loop p c fv n fLow (high * 2) (priceFromPeriodicYield (high * 2) c fv n - p) (k + 1)
            = (h, fh)"
      by (subst (asm) expand_loop.simps) (simp add: Let_def)
    from "1.IH" [OF True refl refl this] "1.prems"(2) show ?thesis by simp
  next
    case False
    with "1.prems"(1) show ?thesis
      by (subst (asm) expand_loop.simps) simp
  qed
qed

lemma bisect_loop_bounds:
  "low \<le> high \<Longrightarrow> low \<le> bisect_loop p c fv n i low high fLow
     \<and> bisect_loop p c fv n i low high fLow \<le> high"
proof (induction p c fv n i low high fLow rule: bisect_loop.induct)
  case (1 p c fv n i low high fLow)
  let ?mid = "(low + high) / 2"
  let ?fMid = "priceFromPeriodicYield ?mid c fv n - p"
  from "1.prems" have m: "low \<le> ?mid" "?mid \<le> high" by simp_all
  show ?case
  proof (cases "i < 200")
    case False
    with m show ?thesis by (subst bisect_loop.simps, simp)+
  next
    case i: True
    show ?thesis
    proof (cases "\<bar>?fMid\<bar> < 1 / 10 ^ 10")
      case True
      with i m show ?thesis by (subst bisect_loop.simps, simp add: Let_def)+
    next
      case f: False
      show ?thesis
      proof (cases "fLow * ?fMid \<le> 0")
        case True
        from "1.IH"(1) [OF i refl refl f True m(1)] m
        have "low \<le> bisect_loop p c fv n (i + 1) low ?mid fLow
              \<and> bisect_loop p c fv n (i + 1) low ?mid fLow \<le> high" by simp
        with i f True show ?thesis by (subst bisect_loop.simps, simp add: Let_def)+
      next
        case False
        from "1.IH"(2) [OF i refl refl f False m(2)] m
        have "low \<le> bisect_loop p c fv n (i + 1) ?mid high ?fMid
              \<and> bisect_loop p c fv n (i + 1) ?mid high ?fMid \<le> high" by simp
        with i f False show ?thesis by (subst bisect_loop.simps, simp add: Let_def)+
      qed
    qed
  qed
qed



section \<open>The machine and the function\<close>

inductive_cases Newton_stepE: "solver_step p c fv n (Newton i x) t"
inductive_cases Expand_stepE: "solver_step p c fv n (Expand fLow high fHigh k) t"
inductive_cases Bisect_stepE: "solver_step p c fv n (Bisect i low high fLow) t"
inductive_cases Returned_stepE: "solver_step p c fv n (Returned r) t"

lemma solver_step_deterministic:
  "solver_step p c fv n s t \<Longrightarrow> solver_step p c fv n s t' \<Longrightarrow> t = t'"
proof (cases s)
  case (Newton i x)
  assume "solver_step p c fv n s t" "solver_step p c fv n s t'"
  with Newton show ?thesis by (auto elim!: Newton_stepE)
next
  case (Expand fLow high fHigh k)
  assume "solver_step p c fv n s t" "solver_step p c fv n s t'"
  with Expand show ?thesis by (auto elim!: Expand_stepE)
next
  case (Bisect i low high fLow)
  assume "solver_step p c fv n s t" "solver_step p c fv n s t'"
  with Bisect show ?thesis by (auto elim!: Bisect_stepE)
next
  case (Returned r)
  assume "solver_step p c fv n s t"
  with Returned show ?thesis by (auto elim: Returned_stepE)
qed



lemma solver_result_unique:
  assumes "(solver_step p c fv n)\<^sup>*\<^sup>* s (Returned r)"
    and "(solver_step p c fv n)\<^sup>*\<^sup>* s (Returned r')"
  shows "r = r'"
  using assms
proof (induction rule: converse_rtranclp_induct)
  case base
  then show ?case by (auto elim: converse_rtranclpE Returned_stepE)
next
  case (step s s1)
  from step.prems show ?case
  proof (cases rule: converse_rtranclpE)
    case base
    with step.hyps(1) show ?thesis by (auto elim: Returned_stepE)
  next
    case (step s2)
    from solver_step_deterministic [OF step(1) \<open>solver_step p c fv n s s1\<close>] step(2)
      \<open>(solver_step p c fv n)\<^sup>*\<^sup>* s1 (Returned r') \<Longrightarrow> r = r'\<close>
    show ?thesis by simp
  qed
qed


lemma newton_loop_steps:
  "(solver_step p c fv n)\<^sup>*\<^sup>* (Newton i x)
     (case newton_loop p c fv n i x of
        Converged r \<Rightarrow> Returned r
      | Fallback \<Rightarrow> Expand (priceFromPeriodicYield (- 99 / 100) c fv n - p) 1
                      (priceFromPeriodicYield 1 c fv n - p) 0)"
proof (induction p c fv n i x rule: newton_loop.induct)
  case (1 p c fv n i x)
  let ?fx = "priceFromPeriodicYield x c fv n - p"
  let ?dfx = "derivativePriceFromPeriodicYield x c fv n"
  let ?next = "x - ?fx / ?dfx"
  let ?bracket = "Expand (priceFromPeriodicYield (- 99 / 100) c fv n - p) 1
                    (priceFromPeriodicYield 1 c fv n - p) 0"
  show ?case
  proof (cases "i < 50")
    case False
    then have eq: "newton_loop p c fv n i x = Fallback"
      by (subst newton_loop.simps) (simp only: if_False)
    from False have "solver_step p c fv n (Newton i x) ?bracket" by (rule newton_exhausted)
    then show ?thesis unfolding eq by (simp only: newton_exit.case r_into_rtranclp)
  next
    case i: True
    show ?thesis
    proof (cases "\<bar>?fx\<bar> < 1 / 10 ^ 10")
      case True
      with i have eq: "newton_loop p c fv n i x = Converged x"
        by (subst newton_loop.simps) (simp only: if_True Let_def)
      from i True have "solver_step p c fv n (Newton i x) (Returned x)"
        by (rule newton_residual)
      then show ?thesis unfolding eq by (simp only: newton_exit.case r_into_rtranclp)
    next
      case fx: False
      show ?thesis
      proof (cases "\<bar>?dfx\<bar> < 1 / 10 ^ 12")
        case True
        with i fx have eq: "newton_loop p c fv n i x = Fallback"
          by (subst newton_loop.simps) (simp only: if_True if_False Let_def)
        from i fx True have "solver_step p c fv n (Newton i x) ?bracket"
          by (rule newton_flat)
        then show ?thesis unfolding eq by (simp only: newton_exit.case r_into_rtranclp)
      next
        case dfx: False
        show ?thesis
        proof (cases "?next \<le> - 999999 / 1000000 \<or> ?next > 10")
          case True
          with i fx dfx have eq: "newton_loop p c fv n i x = Fallback"
            by (subst newton_loop.simps) (simp only: if_True if_False Let_def)
          from i fx dfx refl True have "solver_step p c fv n (Newton i x) ?bracket"
            by (rule newton_out_of_bounds)
          then show ?thesis unfolding eq by (simp only: newton_exit.case r_into_rtranclp)
        next
          case bounds: False
          show ?thesis
          proof (cases "\<bar>?next - x\<bar> < 1 / 10 ^ 12")
            case True
            with i fx dfx bounds have eq: "newton_loop p c fv n i x = Converged ?next"
              by (subst newton_loop.simps) (simp only: if_True if_False Let_def)
            from i fx dfx refl bounds True
            have "solver_step p c fv n (Newton i x) (Returned ?next)"
              by (rule newton_small_step)
            then show ?thesis unfolding eq by (simp only: newton_exit.case r_into_rtranclp)
          next
            case False
            with i fx dfx bounds
            have eq: "newton_loop p c fv n i x = newton_loop p c fv n (i + 1) ?next"
              by (subst newton_loop.simps) (simp only: if_True if_False Let_def)
            from i fx dfx refl bounds False
            have "solver_step p c fv n (Newton i x) (Newton (i + 1) ?next)"
              by (rule newton_continue)
            then show ?thesis unfolding eq
              using "1.IH" [OF i refl fx refl dfx refl bounds False]
              by (rule converse_rtranclp_into_rtranclp)
          qed
        qed
      qed
    qed
  qed
qed

lemma expand_loop_steps:
  "(solver_step p c fv n)\<^sup>*\<^sup>* (Expand fLow high fHigh k)
     (Bisect 0 (- 99 / 100) (fst (expand_loop p c fv n fLow high fHigh k)) fLow)"
proof (induction p c fv n fLow high fHigh k rule: expand_loop.induct)
  case (1 p c fv n fLow high fHigh k)
  show ?case
  proof (cases "fLow * fHigh > 0 \<and> k < 20")
    case True
    then have eq: "expand_loop p c fv n fLow high fHigh k
                 = expand_loop p c fv n fLow (high * 2)
                     (priceFromPeriodicYield (high * 2) c fv n - p) (k + 1)"
      by (subst expand_loop.simps) (simp add: Let_def)
    from True
    have "solver_step p c fv n (Expand fLow high fHigh k)
            (Expand fLow (high * 2) (priceFromPeriodicYield (high * 2) c fv n - p) (k + 1))"
      by (rule expand_double)
    then show ?thesis unfolding eq using "1.IH" [OF True refl refl]
      by (rule converse_rtranclp_into_rtranclp)
  next
    case False
    then have eq: "expand_loop p c fv n fLow high fHigh k = (high, fHigh)"
      by (subst expand_loop.simps) (simp only: if_False)
    from False
    have "solver_step p c fv n (Expand fLow high fHigh k) (Bisect 0 (- 99 / 100) high fLow)"
      by (rule expand_done)
    then show ?thesis unfolding eq by (simp only: fst_conv r_into_rtranclp)
  qed
qed

lemma bisect_loop_steps:
  "(solver_step p c fv n)\<^sup>*\<^sup>* (Bisect i low high fLow)
     (Returned (bisect_loop p c fv n i low high fLow))"
proof (induction p c fv n i low high fLow rule: bisect_loop.induct)
  case (1 p c fv n i low high fLow)
  let ?mid = "(low + high) / 2"
  let ?fMid = "priceFromPeriodicYield ?mid c fv n - p"
  show ?case
  proof (cases "i < 200")
    case False
    then have eq: "bisect_loop p c fv n i low high fLow = ?mid"
      by (subst bisect_loop.simps) (simp only: if_False)
    from False have "solver_step p c fv n (Bisect i low high fLow) (Returned ?mid)"
      by (rule bisect_exhausted)
    then show ?thesis unfolding eq by (rule r_into_rtranclp)
  next
    case i: True
    show ?thesis
    proof (cases "\<bar>?fMid\<bar> < 1 / 10 ^ 10")
      case True
      with i have eq: "bisect_loop p c fv n i low high fLow = ?mid"
        by (subst bisect_loop.simps) (simp only: if_True Let_def)
      from i True have "solver_step p c fv n (Bisect i low high fLow) (Returned ?mid)"
        by (rule bisect_residual)
      then show ?thesis unfolding eq by (rule r_into_rtranclp)
    next
      case f: False
      show ?thesis
      proof (cases "fLow * ?fMid \<le> 0")
        case True
        with i f have eq: "bisect_loop p c fv n i low high fLow
                     = bisect_loop p c fv n (i + 1) low ?mid fLow"
          by (subst bisect_loop.simps) (simp only: if_True if_False Let_def)
        from i refl f True
        have "solver_step p c fv n (Bisect i low high fLow) (Bisect (i + 1) low ?mid fLow)"
          by (rule bisect_lower_half)
        then show ?thesis unfolding eq using "1.IH"(1) [OF i refl refl f True]
          by (rule converse_rtranclp_into_rtranclp)
      next
        case False
        with i f have eq: "bisect_loop p c fv n i low high fLow
                     = bisect_loop p c fv n (i + 1) ?mid high ?fMid"
          by (subst bisect_loop.simps) (simp only: if_True if_False Let_def)
        from i refl f False
        have "solver_step p c fv n (Bisect i low high fLow) (Bisect (i + 1) ?mid high ?fMid)"
          by (rule bisect_upper_half)
        then show ?thesis unfolding eq using "1.IH"(2) [OF i refl refl f False]
          by (rule converse_rtranclp_into_rtranclp)
      qed
    qed
  qed
qed

lemma solver_returns_value:
  "solver_returns p c fv n f crd (solvePeriodicYtm p c fv n f crd)"
proof (cases "newton_loop p c fv n 0 (max (- 95 / 100) (crd / f))")
  case (Converged r)
  from newton_loop_steps [of p c fv n 0 "max (- 95 / 100) (crd / f)"]
  have "(solver_step p c fv n)\<^sup>*\<^sup>* (Newton 0 (max (- 95 / 100) (crd / f))) (Returned r)"
    unfolding Converged by (simp only: newton_exit.case)
  moreover from Converged have "solvePeriodicYtm p c fv n f crd = r"
    unfolding solvePeriodicYtm_def by (simp only: newton_exit.case)
  ultimately show ?thesis unfolding solver_returns_def by (simp only:)
next
  case Fallback
  let ?fLow = "priceFromPeriodicYield (- 99 / 100) c fv n - p"
  let ?fHigh = "priceFromPeriodicYield 1 c fv n - p"
  let ?high = "fst (expand_loop p c fv n ?fLow 1 ?fHigh 0)"
  from newton_loop_steps [of p c fv n 0 "max (- 95 / 100) (crd / f)"]
  have a: "(solver_step p c fv n)\<^sup>*\<^sup>* (Newton 0 (max (- 95 / 100) (crd / f)))
          (Expand ?fLow 1 ?fHigh 0)"
    unfolding Fallback by (simp only: newton_exit.case)
  have b: "(solver_step p c fv n)\<^sup>*\<^sup>* (Expand ?fLow 1 ?fHigh 0)
               (Bisect 0 (- 99 / 100) ?high ?fLow)"
    by (rule expand_loop_steps)
  have c: "(solver_step p c fv n)\<^sup>*\<^sup>* (Bisect 0 (- 99 / 100) ?high ?fLow)
               (Returned (bisect_loop p c fv n 0 (- 99 / 100) ?high ?fLow))"
    by (rule bisect_loop_steps)
  have r: "(solver_step p c fv n)\<^sup>*\<^sup>* (Newton 0 (max (- 95 / 100) (crd / f)))
             (Returned (bisect_loop p c fv n 0 (- 99 / 100) ?high ?fLow))"
    by (rule rtranclp_trans [OF rtranclp_trans [OF a b] c])
  have "bisection p c fv n = bisect_loop p c fv n 0 (- 99 / 100) ?high ?fLow"
    unfolding bisection_def Let_def split_beta ..
  moreover from Fallback have "solvePeriodicYtm p c fv n f crd = bisection p c fv n"
    unfolding solvePeriodicYtm_def by (simp only: newton_exit.case)
  ultimately show ?thesis unfolding solver_returns_def using r by (simp only:)
qed


section \<open>The rules of the validator\<close>

lemma finite_positive_iff: "finite_positive v = (\<not> (\<not> Number_isFinite v \<or> le_zero v))"
  by (cases v) auto

lemma finite_nonnegative_iff: "finite_nonnegative v = (\<not> (\<not> Number_isFinite v \<or> lt_zero v))"
  by (cases v) auto

lemma settlement_rule_iff:
  "settlement_rule p d = (\<not> (truthy d \<and> parse p (the d) = None))"
  by (cases d) (auto simp: settlement_rule_def)

lemma validateBondInput_rules_form:
  "validateBondInput p i =
     (if finite_positive (faceValue i) then [] else [''Face value must be positive.''])
   @ (if finite_nonnegative (annualCouponRatePct i) then []
      else [''Annual coupon rate must be zero or greater.''])
   @ (if finite_positive (marketPrice i) then [] else [''Market price must be positive.''])
   @ (if finite_positive (yearsToMaturity i) then [] else [''Years to maturity must be positive.''])
   @ (if couponFrequency i = ''annual'' \<or> couponFrequency i = ''semi-annual'' then []
      else [''Coupon frequency must be annual or semi-annual.''])
   @ (if settlement_rule p (settlementDate i) then [] else [''Settlement date is invalid.''])"
  unfolding validateBondInput_def finite_positive_iff finite_nonnegative_iff settlement_rule_iff
  by simp

lemma ordered_messages:
  "distinct [a, b, c, d, e, f] \<Longrightarrow>
   filter (\<lambda>m. m \<in> set ((if A then [] else [a]) @ (if B then [] else [b]) @ (if C then [] else [c])
                           @ (if D then [] else [d]) @ (if E then [] else [e])
                           @ (if F then [] else [f])))
     [a, b, c, d, e, f]
   = (if A then [] else [a]) @ (if B then [] else [b]) @ (if C then [] else [c])
     @ (if D then [] else [d]) @ (if E then [] else [e]) @ (if F then [] else [f])"
  by (cases A; cases B; cases C; cases D; cases E; cases F) auto

text \<open>
  Claim C8, as amended.  For every request, well-formed or not, each of the six messages
  is in the list returned by \<^verbatim>\<open>validateBondInput\<close> exactly when its own rule is broken,
  whatever the other fields are: face value finite and positive; coupon rate finite and
  not negative; market price finite and positive; years finite and positive; frequency
  one of "annual" and "semi-annual"; settlement date, if given and not the empty string,
  parseable.  The list is empty exactly when all six rules hold, and it carries its
  messages in the fixed order of \<open>validationMessages\<close>, each at most once.  The function
  returns the list and does nothing else.
\<close>

theorem validateBondInput_rules:
  "(''Face value must be positive.'' \<in> set (validateBondInput p i))
     = (\<not> finite_positive (faceValue i))
   \<and> (''Annual coupon rate must be zero or greater.'' \<in> set (validateBondInput p i))
       = (\<not> finite_nonnegative (annualCouponRatePct i))
   \<and> (''Market price must be positive.'' \<in> set (validateBondInput p i))
       = (\<not> finite_positive (marketPrice i))
   \<and> (''Years to maturity must be positive.'' \<in> set (validateBondInput p i))
       = (\<not> finite_positive (yearsToMaturity i))
   \<and> (''Coupon frequency must be annual or semi-annual.'' \<in> set (validateBondInput p i))
       = (\<not> (couponFrequency i = ''annual'' \<or> couponFrequency i = ''semi-annual''))
   \<and> (''Settlement date is invalid.'' \<in> set (validateBondInput p i))
       = (\<not> settlement_rule p (settlementDate i))
   \<and> (validateBondInput p i = [])
       = (finite_positive (faceValue i) \<and> finite_nonnegative (annualCouponRatePct i)
          \<and> finite_positive (marketPrice i) \<and> finite_positive (yearsToMaturity i)
          \<and> (couponFrequency i = ''annual'' \<or> couponFrequency i = ''semi-annual'')
          \<and> settlement_rule p (settlementDate i))
   \<and> validateBondInput p i
       = filter (\<lambda>m. m \<in> set (validateBondInput p i)) validationMessages"
proof -
  have "validateBondInput p i
          = filter (\<lambda>m. m \<in> set (validateBondInput p i)) validationMessages"
    unfolding validationMessages_def validateBondInput_rules_form
    by (rule ordered_messages [symmetric]) simp
  moreover have "(''Face value must be positive.'' \<in> set (validateBondInput p i))
     = (\<not> finite_positive (faceValue i))"
    "(''Annual coupon rate must be zero or greater.'' \<in> set (validateBondInput p i))
       = (\<not> finite_nonnegative (annualCouponRatePct i))"
    "(''Market price must be positive.'' \<in> set (validateBondInput p i))
       = (\<not> finite_positive (marketPrice i))"
    "(''Years to maturity must be positive.'' \<in> set (validateBondInput p i))
       = (\<not> finite_positive (yearsToMaturity i))"
    "(''Coupon frequency must be annual or semi-annual.'' \<in> set (validateBondInput p i))
       = (\<not> (couponFrequency i = ''annual'' \<or> couponFrequency i = ''semi-annual''))"
    "(''Settlement date is invalid.'' \<in> set (validateBondInput p i))
       = (\<not> settlement_rule p (settlementDate i))"
    "(validateBondInput p i = [])
       = (finite_positive (faceValue i) \<and> finite_nonnegative (annualCouponRatePct i)
          \<and> finite_positive (marketPrice i) \<and> finite_positive (yearsToMaturity i)
          \<and> (couponFrequency i = ''annual'' \<or> couponFrequency i = ''semi-annual'')
          \<and> settlement_rule p (settlementDate i))"
    unfolding validateBondInput_rules_form by simp_all
  ultimately show ?thesis by (intro conjI)
qed

text \<open>
  The request \<open>all_wrong\<close> breaks every rule and gets all six messages, in order; the par
  bond breaks none and gets the empty list.
\<close>

theorem validateBondInput_rules_witness:
  "\<not> finite_positive (faceValue all_wrong) \<and> \<not> finite_nonnegative (annualCouponRatePct all_wrong)
   \<and> \<not> finite_positive (marketPrice all_wrong) \<and> \<not> finite_positive (yearsToMaturity all_wrong)
   \<and> \<not> (couponFrequency all_wrong = ''annual'' \<or> couponFrequency all_wrong = ''semi-annual'')
   \<and> \<not> settlement_rule examplePlatform (settlementDate all_wrong)
   \<and> ''Face value must be positive.'' \<in> set (validateBondInput examplePlatform all_wrong)
   \<and> ''Settlement date is invalid.'' \<in> set (validateBondInput examplePlatform all_wrong)
   \<and> validateBondInput examplePlatform all_wrong = validationMessages
   \<and> finite_positive (faceValue par_bond) \<and> finite_nonnegative (annualCouponRatePct par_bond)
   \<and> finite_positive (marketPrice par_bond) \<and> finite_positive (yearsToMaturity par_bond)
   \<and> (couponFrequency par_bond = ''annual'' \<or> couponFrequency par_bond = ''semi-annual'')
   \<and> settlement_rule examplePlatform (settlementDate par_bond)
   \<and> validateBondInput examplePlatform par_bond = []"
proof -
  have d: "parse examplePlatform ''tomorrow'' = None" by code_simp
  have w: "\<not> finite_positive (faceValue all_wrong)"
    "\<not> finite_nonnegative (annualCouponRatePct all_wrong)"
    "\<not> finite_positive (marketPrice all_wrong)" "\<not> finite_positive (yearsToMaturity all_wrong)"
    "\<not> (couponFrequency all_wrong = ''annual'' \<or> couponFrequency all_wrong = ''semi-annual'')"
    "\<not> settlement_rule examplePlatform (settlementDate all_wrong)"
    by (simp_all add: all_wrong_def settlement_rule_def d)
  have g: "finite_positive (faceValue par_bond)" "finite_nonnegative (annualCouponRatePct par_bond)"
    "finite_positive (marketPrice par_bond)" "finite_positive (yearsToMaturity par_bond)"
    "couponFrequency par_bond = ''annual'' \<or> couponFrequency par_bond = ''semi-annual''"
    "settlement_rule examplePlatform (settlementDate par_bond)"
    by (simp_all add: par_bond_def request_def settlement_rule_def example_dates)
  note r = validateBondInput_rules [of examplePlatform all_wrong]
  from r w have m: "''Face value must be positive.'' \<in> set (validateBondInput examplePlatform all_wrong)"
    "''Annual coupon rate must be zero or greater.''
       \<in> set (validateBondInput examplePlatform all_wrong)"
    "''Market price must be positive.'' \<in> set (validateBondInput examplePlatform all_wrong)"
    "''Years to maturity must be positive.'' \<in> set (validateBondInput examplePlatform all_wrong)"
    "''Coupon frequency must be annual or semi-annual.''
       \<in> set (validateBondInput examplePlatform all_wrong)"
    "''Settlement date is invalid.'' \<in> set (validateBondInput examplePlatform all_wrong)"
    by blast+
  from r have "validateBondInput examplePlatform all_wrong
     = filter (\<lambda>m. m \<in> set (validateBondInput examplePlatform all_wrong)) validationMessages"
    by blast
  also from m have "\<dots> = validationMessages" by (simp add: validationMessages_def)
  finally have a: "validateBondInput examplePlatform all_wrong = validationMessages" .
  from validateBondInput_rules [of examplePlatform par_bond] g
  have "validateBondInput examplePlatform par_bond = []" by blast
  with w g m a show ?thesis by blast
qed

text \<open>
  Claim C8 as stated fails for \<open>empty_date\<close>: its settlement date is present and does not
  parse, and yet the list is empty, because the validator (like \<^verbatim>\<open>calculateBondMetrics\<close>)
  takes the empty string for an absent date.
\<close>

theorem empty_settlement_date_counterexample:
  "settlementDate empty_date = Some ''''
   \<and> parse examplePlatform '''' = None
   \<and> validateBondInput examplePlatform empty_date = []"
proof -
  have "parse examplePlatform '''' = None" by code_simp
  then show ?thesis by (simp add: empty_date_def validateBondInput_def)
qed


section \<open>The variables of the solver stay in range\<close>







section \<open>Yields above par\<close>

text \<open>
  The premium side of the order between yield to maturity and current yield fails like
  the discount side: for \<open>near_par_premium\<close> both are 5.
\<close>

lemma near_par_premium_eval:
  "calculateBondMetrics examplePlatform near_par_premium = Inr near_par_premium_result"
proof -
  have r:
    "js_div (Num 5) (Num 100) = Num (3602879701896397 / 72057594037927936)"
    "js_mul (Num 1000) (Num (3602879701896397 / 72057594037927936)) = Num 50"
    "js_div (Num 50) (Num 1) = Num 50"
    "js_div (Num 50) (Num (1099511627776011 / 1099511627776))
       = Num (3602879701896361 / 72057594037927936)"
    "js_mul (Num (3602879701896361 / 72057594037927936)) (Num 100)
       = Num (703687441776633 / 140737488355328)"
    "rnd (3602879701896397 / 72057594037927936) = Num (3602879701896397 / 72057594037927936)"
    "js_mul (Num (3602879701896397 / 72057594037927936)) (Num 1)
       = Num (3602879701896397 / 72057594037927936)"
    "js_mul (Num (3602879701896397 / 72057594037927936)) (Num 100) = Num 5"
    "round6 (Num 5) = Num 5"
    "js_add (Num 0) (Num 50) = Num 50"
    "round2 (Num 50) = Num 50"
    "js_sub (Num (1099511627776011 / 1099511627776)) (Num 1000) = Num (11 / 1099511627776)"
    "round6 (Num (703687441776633 / 140737488355328)) = Num 5"
    "js_mul (Num 50) (Num 1) = Num 50"
    "round2 (Num (11 / 1099511627776)) = Num 0"
    by (simp_all add: evaluate_rounding)
  have p: "\<bar>priceFromPeriodicYield (3602879701896397 / 72057594037927936) 50 1000 1 -
               (1099511627776011 / 1099511627776)\<bar> < 1 / 10 ^ 10"
    unfolding priceFromPeriodicYield_def
    by (simp add: price_loop.simps [of _ _ 1])
  have s: "solvePeriodicYtm (1099511627776011 / 1099511627776) 50 1000 1 1
                 (3602879701896397 / 72057594037927936)
             = 3602879701896397 / 72057594037927936"
    by (rule solvePeriodicYtm_first_guess [OF _ p]) simp
  have n: "Math_round 1 = 1" by (simp add: Math_round_def)
  show ?thesis
    unfolding calculateBondMetrics_def near_par_premium_result_def
    by (simp add: Let_def frequencyPerYearOf_def example_dates one_annual_row r s n
          near_par_premium_def request_def
          del: js_add.simps js_mul.simps js_div.simps)
qed

lemma near_par_premium_yields:
  "validateBondInput examplePlatform near_par_premium = []
   \<and> calculateBondMetrics examplePlatform near_par_premium = Inr near_par_premium_result
   \<and> tradingStatus near_par_premium_result = ''premium''
   \<and> \<not> js_lt (ytmPct near_par_premium_result) (currentYieldPct near_par_premium_result)"
proof -
  have "validateBondInput examplePlatform near_par_premium = []"
    by (simp add: validateBondInput_def near_par_premium_def request_def example_dates)
  then show ?thesis using near_par_premium_eval by (simp add: near_par_premium_result_def)
qed

text \<open>
  For \<open>deep_premium\<close> the Newton step from the first guess 0 leads to \<open>-199\<close> and the
  loop is left; no rate of the bracket \<open>[-0.99, 2\<^sup>2\<^sup>0]\<close> reprices the bond, whose true
  yield is \<open>-0.995\<close>, and the bisection moves to the upper end: the yield to maturity
  returned is at least 0.5 %, far above the current yield 0.
\<close>

lemma deep_premium_eval:
  "calculateBondMetrics examplePlatform deep_premium = Inr deep_premium_result"
proof -
  have r:
    "js_div (Num 0) (Num 100) = Num 0"
    "js_mul (Num 1) (Num 0) = Num 0"
    "js_div (Num 0) (Num 1) = Num 0"
    "js_div (Num 0) (Num 200) = Num 0"
    "js_mul (Num 0) (Num 100) = Num 0"
    "js_add (Num 0) (Num 0) = Num 0"
    "round2 (Num 0) = Num 0"
    "js_sub (Num 200) (Num 1) = Num 199"
    "round6 (Num 0) = Num 0"
    "js_mul (Num 0) (Num 1) = Num 0"
    "round2 (Num 199) = Num 199"
    by (simp_all add: evaluate_rounding)
  have n: "Math_round 1 = 1" by (simp add: Math_round_def)
  show ?thesis
    unfolding calculateBondMetrics_def deep_premium_result_def
    by (simp add: Let_def frequencyPerYearOf_def example_dates one_annual_row r n
          deep_premium_def request_def
          del: js_add.simps js_mul.simps js_div.simps)
qed

lemma deep_premium_price:
  "- 99 / 100 \<le> x \<Longrightarrow> priceFromPeriodicYield x 0 1 1 \<le> 100"
proof -
  assume x: "- 99 / 100 \<le> x"
  have l: "price_loop x 0 1 1 0 = 0"
    by (simp add: price_loop.simps [of _ _ 1])
  from x have "1 / 100 \<le> 1 + x" by simp
  then have "1 / (1 + x) \<le> 1 / (1 / 100)" by (intro divide_left_mono) simp_all
  with l show ?thesis unfolding priceFromPeriodicYield_def by simp
qed

lemma deep_premium_yield: "1 / 200 \<le> solvePeriodicYtm 200 0 1 1 1 0"
proof -
  have d: "derivativePriceFromPeriodicYield 0 0 1 1 = - 1"
    unfolding derivativePriceFromPeriodicYield_def
    by (simp add: derivative_loop.simps [of _ _ 1])
  have p0: "priceFromPeriodicYield 0 0 1 1 = 1"
    unfolding priceFromPeriodicYield_def by simp
  have newton: "newton_loop 200 0 1 1 0 0 = Fallback"
    by (subst newton_loop.simps) (simp add: Let_def d p0)
  let ?fLow = "priceFromPeriodicYield (- 99 / 100) 0 1 1 - 200"
  let ?fHigh = "priceFromPeriodicYield 1 0 1 1 - 200"
  obtain h fh where e: "expand_loop 200 0 1 1 ?fLow 1 ?fHigh 0 = (h, fh)"
    by (cases "expand_loop 200 0 1 1 ?fLow 1 ?fHigh 0")
  from expand_loop_bound [OF e] have h: "1 \<le> h" by simp
  let ?mid = "(- 99 / 100 + h) / 2"
  let ?fMid = "priceFromPeriodicYield ?mid 0 1 1 - 200"
  from h have m: "1 / 200 \<le> ?mid" "?mid \<le> h" by simp_all
  from deep_premium_price [of "- 99 / 100"] have fl: "?fLow \<le> - 100" by simp
  from m(1) deep_premium_price [of ?mid] have fm: "?fMid \<le> - 100" by simp
  from fl fm have "0 < ?fLow * ?fMid" by (intro mult_neg_neg) linarith+
  then have prod: "\<not> ?fLow * ?fMid \<le> 0" by linarith
  from fm have tol: "\<not> \<bar>?fMid\<bar> < 1 / 10 ^ 10" by simp
  have "bisect_loop 200 0 1 1 0 (- 99 / 100) h ?fLow = bisect_loop 200 0 1 1 (0 + 1) ?mid h ?fMid"
    using prod tol by (subst bisect_loop.simps) (simp add: Let_def)
  moreover from bisect_loop_bounds [OF m(2), of 200 0 1 1 "0 + 1" ?fMid]
  have "?mid \<le> bisect_loop 200 0 1 1 (0 + 1) ?mid h ?fMid" by blast
  ultimately have "1 / 200 \<le> bisect_loop 200 0 1 1 0 (- 99 / 100) h ?fLow"
    using m(1) by simp
  with e have "1 / 200 \<le> bisection 200 0 1 1"
    unfolding bisection_def by (simp add: Let_def)
  with newton show ?thesis by (simp add: solvePeriodicYtm_def)
qed

lemma deep_premium_yields:
  "validateBondInput examplePlatform deep_premium = []
   \<and> calculateBondMetrics examplePlatform deep_premium = Inr deep_premium_result
   \<and> tradingStatus deep_premium_result = ''premium''
   \<and> currentYieldPct deep_premium_result = Num 0
   \<and> js_le (Num (1 / 2)) (ytmPct deep_premium_result)"
proof -
  have v: "validateBondInput examplePlatform deep_premium = []"
    by (simp add: validateBondInput_def deep_premium_def request_def example_dates)
  let ?y = "rnd (solvePeriodicYtm 200 0 1 1 1 0)"
  have "js_le (rnd (1 / 200)) ?y" using deep_premium_yield by (rule rnd_mono)
  then have "js_le (js_mul (js_mul (rnd (1 / 200)) (Num 1)) (Num 100))
               (js_mul (js_mul ?y (Num 1)) (Num 100))"
    by (intro js_mul_mono) simp_all
  then have "js_le (round6 (js_mul (js_mul (rnd (1 / 200)) (Num 1)) (Num 100)))
               (round6 (js_mul (js_mul ?y (Num 1)) (Num 100)))"
    by (rule round6_mono)
  moreover have "round6 (js_mul (js_mul (rnd (1 / 200)) (Num 1)) (Num 100)) = Num (1 / 2)"
    by (simp add: evaluate_rounding)
  ultimately have "js_le (Num (1 / 2)) (ytmPct deep_premium_result)"
    by (simp add: deep_premium_result_def del: js_mul.simps)
  with v deep_premium_eval show ?thesis by (simp add: deep_premium_result_def del: js_mul.simps)
qed


section \<open>When a result is returned\<close>

text \<open>
  A request that passes validation gets a result as soon as its coupon payment is finite,
  its period count lies between 1 and \<open>2\<^sup>3\<^sup>2 - 1\<close>, the clock is valid, and every payment
  date is in the range of \<^verbatim>\<open>Date\<close>.
\<close>

lemma toISODate_None: "(toISODate d = None) = (d = None)"
  by (cases d) (simp_all add: toISODate_def Let_def split_beta)

lemma schedule_loop_returns:
  "(\<And>k. index < k \<Longrightarrow> k \<le> periods \<Longrightarrow> addMonthsClamped s (m * k) \<noteq> None) \<Longrightarrow>
   \<exists>rows. schedule_loop s m c f periods index cum = Inr rows"
proof (induction s m c f periods index cum rule: schedule_loop.induct)
  case (1 s m c f periods index cum)
  show ?case
  proof (cases "index < periods")
    case False
    then show ?thesis by (subst schedule_loop.simps) simp
  next
    case True
    with "1.prems" [of "index + 1"] have "addMonthsClamped s (m * (index + 1)) \<noteq> None" by simp
    then obtain isoDate where d: "toISODate (addMonthsClamped s (m * (index + 1))) = Some isoDate"
      using toISODate_None [of "addMonthsClamped s (m * (index + 1))"] by auto
    have "\<exists>rows. schedule_loop s m c f periods (index + 1) (js_add cum c) = Inr rows"
      using "1.prems" by (intro "1.IH" [OF True refl refl refl d]) simp_all
    then obtain rest where "schedule_loop s m c f periods (index + 1) (js_add cum c) = Inr rest" ..
    with True d show ?thesis by (subst schedule_loop.simps) (simp add: Let_def)
  qed
qed

lemma couponPaymentOf_rate:
  assumes "0 < face" and "couponPaymentOf face ratePct f = Num c"
  shows "\<exists>rate. js_div (Num ratePct) (Num 100) = Num rate"
proof (cases "js_div (Num ratePct) (Num 100)")
  case (Num rate)
  then show ?thesis by blast
next
  case NaN
  then show ?thesis using rnd_ordered [of "ratePct / 100"] by simp
next
  case PosInfinity
  then show ?thesis using assms unfolding couponPaymentOf_def
    by (simp del: js_div.simps) (simp split: if_splits)
next
  case NegInfinity
  then show ?thesis using assms unfolding couponPaymentOf_def
    by (simp del: js_div.simps) (simp split: if_splits)
next
  case NotNumber
  then show ?thesis using rnd_ordered [of "ratePct / 100"] by simp
qed

lemma calculateBondMetrics_returns:
  assumes "validateBondInput p i = []"
    and "faceValue i = Num face" and "annualCouponRatePct i = Num ratePct"
    and "yearsToMaturity i = Num years"
    and "couponPaymentOf face ratePct (frequencyPerYearOf i) = Num c"
    and "1 \<le> Math_round (years * of_int (frequencyPerYearOf i))"
    and "Math_round (years * of_int (frequencyPerYearOf i)) \<le> 4294967295"
    and "now p \<noteq> None"
    and "\<And>k. 1 \<le> k \<Longrightarrow> k \<le> Math_round (years * of_int (frequencyPerYearOf i)) \<Longrightarrow>
           addMonthsClamped
             (if truthy (settlementDate i) then parse p (the (settlementDate i)) else now p)
             (12 div frequencyPerYearOf i * k) \<noteq> None"
  shows "\<exists>r. calculateBondMetrics p i = Inr r"
proof -
  let ?settlement = "if truthy (settlementDate i) then parse p (the (settlementDate i)) else now p"
  let ?n = "Math_round (years * of_int (frequencyPerYearOf i))"
  from validateBondInput_empty(1) [OF assms(1)] assms(2) obtain price where
    n: "marketPrice i = Num price" and face: "0 < face"
    by auto
  from couponPaymentOf_rate [OF face assms(5)] obtain rate where
    rate: "js_div (Num ratePct) (Num 100) = Num rate" by blast
  from assms(5) rate have coupon:
    "js_div (js_mul (Num face) (Num rate)) (Num (of_int (frequencyPerYearOf i))) = Num c"
    by (simp add: couponPaymentOf_def del: js_div.simps js_mul.simps)
  from validateBondInput_empty(3) [OF assms(1)] assms(8) have "?settlement \<noteq> None" by simp
  then obtain isoDate where s: "toISODate ?settlement = Some isoDate"
    using toISODate_None [of ?settlement] by auto
  from assms(9) obtain rows where
    "schedule_loop ?settlement (12 div frequencyPerYearOf i) (Num c) (Num face) ?n 0 (Num 0)
       = Inr rows"
    using schedule_loop_returns [of 0 ?n ?settlement "12 div frequencyPerYearOf i"
            "Num c" "Num face" "Num 0"]
    by auto
  with n assms(2,3,4,6,7) s rate coupon show ?thesis
    unfolding calculateBondMetrics_def
    by (simp add: Let_def del: js_div.simps js_mul.simps js_add.simps)
qed

end
